theory Spec2Isabelle
  imports Main "HOL-Library.Log_Nat"
begin

section \<open>JavaScript strings\<close>

text \<open>
  A JavaScript string is the list of its UTF-16 code units, a code unit being a number
  below 65536; a character of the text written in a script is one code unit for every
  character the scripts name. A value that is \<open>null\<close> or \<open>undefined\<close> is \<open>None\<close>.
\<close>

type_synonym jsstring = "nat list"

text \<open>The code unit of a character written in this file, and the string of a text
  written in this file.\<close>

definition code :: "char \<Rightarrow> nat" where
  "code c = of_char c"

definition js :: "string \<Rightarrow> jsstring" where
  "js s = map code s"

text \<open>The class \<open>\s\<close> of a regular expression, which is also what \<open>trim\<close> removes and
  what \<open>Number\<close> skips around a literal: TAB, LF, VT, FF, CR, space, the no-break space,
  U+1680, U+2000 to U+200A, the line and paragraph separators U+2028 and U+2029, U+202F,
  U+205F, U+3000 and the byte order mark U+FEFF.\<close>

definition is_space :: "nat \<Rightarrow> bool" where
  "is_space c =
     (c \<in> {9, 10, 11, 12, 13, 32, 160, 5760, 8232, 8233, 8239, 8287, 12288, 65279}
      \<or> (8192 \<le> c \<and> c \<le> 8202))"

text \<open>The class \<open>\d\<close>.\<close>

definition is_digit :: "nat \<Rightarrow> bool" where
  "is_digit c = (48 \<le> c \<and> c \<le> 57)"

text \<open>The class \<open>[A-Za-z]\<close>.\<close>

definition is_alpha :: "nat \<Rightarrow> bool" where
  "is_alpha c = ((65 \<le> c \<and> c \<le> 90) \<or> (97 \<le> c \<and> c \<le> 122))"

text \<open>The class \<open>\w\<close>: letters, digits and the underscore.\<close>

definition is_word :: "nat \<Rightarrow> bool" where
  "is_word c = (is_alpha c \<or> is_digit c \<or> c = 95)"

text \<open>
  \<open>String.prototype.toLowerCase\<close>, code unit by code unit. A-Z and the Latin-1
  capitals U+00C0 to U+00DE (without the multiplication sign U+00D7) move up by 32;
  U+0130 becomes \<open>i\<close> followed by U+0307, the Kelvin sign U+212A becomes \<open>k\<close> and the
  Angstrom sign U+212B becomes U+00E5: these are all the code units whose lower case
  holds a code unit below 256. The capital letters of the other alphabets change as
  well, into code units that are again above 255 and no white space; they are left
  as they are here, which no pattern and no comparison of the scripts can tell, since
  those read the digits, ASCII letters, punctuation and white space only.
\<close>

definition lower_unit :: "nat \<Rightarrow> jsstring" where
  "lower_unit c =
     (if (65 \<le> c \<and> c \<le> 90) \<or> (192 \<le> c \<and> c \<le> 222 \<and> c \<noteq> 215) then [c + 32]
      else if c = 304 then [105, 775]
      else if c = 8490 then [107]
      else if c = 8491 then [229]
      else [c])"

definition toLowerCase :: "jsstring \<Rightarrow> jsstring" where
  "toLowerCase s = concat (map lower_unit s)"

text \<open>\<open>String.prototype.trim\<close>.\<close>

definition trim :: "jsstring \<Rightarrow> jsstring" where
  "trim s = rev (dropWhile is_space (rev (dropWhile is_space s)))"

text \<open>\<open>s.split(d)\<close> for a one-character separator: never an empty array, the empty
  string gives one empty part.\<close>

fun split :: "nat \<Rightarrow> jsstring \<Rightarrow> jsstring list" where
  "split d [] = [[]]"
| "split d (c # cs) =
     (if c = d then [] # split d cs
      else (case split d cs of [] \<Rightarrow> [[c]] | p # ps \<Rightarrow> (c # p) # ps))"

text \<open>\<open>parts.join(d)\<close>.\<close>

fun join :: "nat \<Rightarrow> jsstring list \<Rightarrow> jsstring" where
  "join d [] = []"
| "join d [p] = p"
| "join d (p # q # ps) = p @ d # join d (q # ps)"

text \<open>\<open>s.startsWith(p)\<close>, used to read a literal piece of a pattern.\<close>

fun starts_with :: "jsstring \<Rightarrow> jsstring \<Rightarrow> bool" where
  "starts_with [] s = True"
| "starts_with (p # ps) [] = False"
| "starts_with (p # ps) (c # cs) = (p = c \<and> starts_with ps cs)"

text \<open>\<open>s.includes(p)\<close>.\<close>

fun str_includes :: "jsstring \<Rightarrow> jsstring \<Rightarrow> bool" where
  "str_includes [] p = (p = [])"
| "str_includes (c # cs) p = (starts_with p (c # cs) \<or> str_includes cs p)"

text \<open>\<open>s.padStart(n, '0')\<close>.\<close>

definition padStart0 :: "nat \<Rightarrow> jsstring \<Rightarrow> jsstring" where
  "padStart0 n s = replicate (n - length s) (code (CHR ''0'')) @ s"

text \<open>\<open>s.replace(/\s+/g, ' ')\<close>: every maximal run of white space becomes one space.\<close>

function collapse_spaces :: "jsstring \<Rightarrow> jsstring" where
  "collapse_spaces [] = []"
| "collapse_spaces (c # cs) =
     (if is_space c then code (CHR '' '') # collapse_spaces (dropWhile is_space cs)
      else c # collapse_spaces cs)"
  by pat_completeness auto
termination
  by (relation "measure length") (auto simp: length_dropWhile_le less_Suc_eq_le)

section \<open>JavaScript numbers\<close>

text \<open>
  A number is an IEEE 754 double: NaN, the two infinities, or a finite value, kept here
  as the rational it denotes (the two zeros are one value: the scripts never divide by a
  variable, so the sign of zero is not observable). Every arithmetic result is rounded
  by \<open>fround\<close>, round to nearest, ties to even, with the double's 53 bits of
  precision, the least exponent -1074 and overflow to infinity at \<open>2 ^ 1024\<close>.
\<close>

datatype jsnum = NaN | PInf | NInf | Fin rat

definition pow2 :: "int \<Rightarrow> rat" where
  "pow2 e = (if 0 \<le> e then 2 ^ nat e else 1 / 2 ^ nat (- e))"

definition pow10 :: "int \<Rightarrow> rat" where
  "pow10 e = (if 0 \<le> e then 10 ^ nat e else 1 / 10 ^ nat (- e))"

text \<open>The exponent \<open>e\<close> with \<open>2 ^ e \<le> a < 2 ^ (e + 1)\<close>, for \<open>a > 0\<close>.\<close>

definition binexp :: "rat \<Rightarrow> int" where
  "binexp a =
     (let (p, d) = quotient_of a; e = bitlen p - bitlen d
      in if pow2 e \<le> a then e else e - 1)"

text \<open>The integer nearest to \<open>m\<close>, a tie going to the even one.\<close>

definition round_even :: "rat \<Rightarrow> int" where
  "round_even m =
     (let f = \<lfloor>m\<rfloor>; r = m - of_int f
      in if r < 1 / 2 then f else if 1 / 2 < r then f + 1 else if even f then f else f + 1)"

definition fround :: "rat \<Rightarrow> jsnum" where
  "fround q =
     (if q = 0 then Fin 0
      else let a = \<bar>q\<bar>;
               t = max (binexp a) (- 1022) - 52;
               v = of_int (round_even (a / pow2 t)) * pow2 t
           in if pow2 1024 \<le> v then (if 0 < q then PInf else NInf)
              else Fin (if 0 < q then v else - v))"

definition js_neg :: "jsnum \<Rightarrow> jsnum" where
  "js_neg x = (case x of NaN \<Rightarrow> NaN | PInf \<Rightarrow> NInf | NInf \<Rightarrow> PInf | Fin q \<Rightarrow> Fin (- q))"

fun js_add :: "jsnum \<Rightarrow> jsnum \<Rightarrow> jsnum" where
  "js_add NaN y = NaN"
| "js_add x NaN = NaN"
| "js_add PInf NInf = NaN"
| "js_add NInf PInf = NaN"
| "js_add PInf y = PInf"
| "js_add NInf y = NInf"
| "js_add x PInf = PInf"
| "js_add x NInf = NInf"
| "js_add (Fin a) (Fin b) = fround (a + b)"

definition js_sub :: "jsnum \<Rightarrow> jsnum \<Rightarrow> jsnum" where
  "js_sub x y = js_add x (js_neg y)"

text \<open>The sign of a number that is not NaN: -1, 0 or 1.\<close>

definition js_sign :: "jsnum \<Rightarrow> int" where
  "js_sign x =
     (case x of NaN \<Rightarrow> 0 | PInf \<Rightarrow> 1 | NInf \<Rightarrow> - 1
      | Fin q \<Rightarrow> (if q < 0 then - 1 else if q = 0 then 0 else 1))"

definition js_inf :: "int \<Rightarrow> jsnum" where
  "js_inf s = (if s = 0 then NaN else if 0 < s then PInf else NInf)"

fun js_mul :: "jsnum \<Rightarrow> jsnum \<Rightarrow> jsnum" where
  "js_mul NaN y = NaN"
| "js_mul x NaN = NaN"
| "js_mul (Fin a) (Fin b) = fround (a * b)"
| "js_mul x y = js_inf (js_sign x * js_sign y)"

text \<open>Division. A zero divisor is read as +0; the scripts divide by the literal 60 only.\<close>

fun js_div :: "jsnum \<Rightarrow> jsnum \<Rightarrow> jsnum" where
  "js_div NaN y = NaN"
| "js_div x NaN = NaN"
| "js_div (Fin a) (Fin b) = (if b = 0 then js_inf (js_sign (Fin a)) else fround (a / b))"
| "js_div (Fin a) y = Fin 0"
| "js_div x (Fin b) = js_inf (js_sign x * (if b < 0 then - 1 else 1))"
| "js_div x y = NaN"

text \<open>The comparison \<open>x < y\<close>: false as soon as one side is NaN.\<close>

fun js_less :: "jsnum \<Rightarrow> jsnum \<Rightarrow> bool" where
  "js_less NaN y = False"
| "js_less x NaN = False"
| "js_less (Fin a) (Fin b) = (a < b)"
| "js_less NInf y = (y \<noteq> NInf)"
| "js_less x PInf = (x \<noteq> PInf)"
| "js_less x y = False"

text \<open>\<open>Number.isNaN\<close> and \<open>Number.isFinite\<close>.\<close>

definition isNaN :: "jsnum \<Rightarrow> bool" where
  "isNaN x = (x = NaN)"

definition isFinite :: "jsnum \<Rightarrow> bool" where
  "isFinite x = (case x of Fin q \<Rightarrow> True | _ \<Rightarrow> False)"

text \<open>\<open>Math.round\<close>: the nearest integer, a tie going up. The result is a double
  whenever the argument is one.\<close>

definition Math_round :: "jsnum \<Rightarrow> jsnum" where
  "Math_round x = (case x of Fin q \<Rightarrow> Fin (of_int \<lfloor>q + 1 / 2\<rfloor>) | _ \<Rightarrow> x)"

subsection \<open>\<open>Number(jsstring)\<close>\<close>

definition digit_val :: "nat \<Rightarrow> int" where
  "digit_val c =
     (if is_digit c then int c - 48
      else if 97 \<le> c \<and> c \<le> 102 then int c - 87
      else int c - 55)"

definition is_hex :: "nat \<Rightarrow> bool" where
  "is_hex c = (is_digit c \<or> (97 \<le> c \<and> c \<le> 102) \<or> (65 \<le> c \<and> c \<le> 70))"

definition is_oct :: "nat \<Rightarrow> bool" where
  "is_oct c = (48 \<le> c \<and> c \<le> 55)"

definition is_bin :: "nat \<Rightarrow> bool" where
  "is_bin c = (c = 48 \<or> c = 49)"

text \<open>The value of a numeral in a base, most significant digit first.\<close>

definition digits_value :: "int \<Rightarrow> jsstring \<Rightarrow> int" where
  "digits_value b ds = foldl (\<lambda>a c. b * a + digit_val c) 0 ds"

text \<open>An optional sign: the sign read and the rest.\<close>

definition read_sign :: "jsstring \<Rightarrow> bool \<times> jsstring" where
  "read_sign s =
     (case s of [] \<Rightarrow> (False, [])
      | c # cs \<Rightarrow> if c = code (CHR ''-'') then (True, cs) else if c = code (CHR ''+'') then (False, cs) else (False, s))"

text \<open>The exponent part of a decimal literal, up to the end of the string:
  absent, or \<open>e\<close>/\<open>E\<close>, an optional sign and at least one digit.\<close>

definition read_exponent :: "jsstring \<Rightarrow> int option" where
  "read_exponent s =
     (case s of [] \<Rightarrow> Some 0
      | c # cs \<Rightarrow>
          if c = code (CHR ''e'') \<or> c = code (CHR ''E'') then
            (let (neg, ds) = read_sign cs
             in if ds \<noteq> [] \<and> list_all is_digit ds
                then Some (if neg then - digits_value 10 ds else digits_value 10 ds)
                else None)
          else None)"

text \<open>An unsigned decimal literal that fills the whole string:
  \<open>digits\<close>, \<open>digits.\<close>, \<open>digits.digits\<close> or \<open>.digits\<close>, then the exponent part.\<close>

definition read_decimal :: "jsstring \<Rightarrow> rat option" where
  "read_decimal s =
     (let ip = takeWhile is_digit s; r1 = dropWhile is_digit s;
          dot = (r1 \<noteq> [] \<and> hd r1 = code (CHR ''.''));
          fp = (if dot then takeWhile is_digit (tl r1) else []);
          r2 = (if dot then dropWhile is_digit (tl r1) else r1)
      in if ip = [] \<and> fp = [] then None
         else (case read_exponent r2 of None \<Rightarrow> None
               | Some ex \<Rightarrow> Some (of_int (digits_value 10 (ip @ fp)) * pow10 (ex - int (length fp)))))"

text \<open>A literal \<open>0x..\<close>, \<open>0o..\<close> or \<open>0b..\<close> (either case of the letter), which takes no
  sign: the base and the digits after the prefix.\<close>

definition radix_prefix :: "jsstring \<Rightarrow> (int \<times> (nat \<Rightarrow> bool) \<times> jsstring) option" where
  "radix_prefix s =
     (case s of
        z # x # ds \<Rightarrow>
          if z \<noteq> code (CHR ''0'') then None
          else if x = code (CHR ''x'') \<or> x = code (CHR ''X'') then Some (16, is_hex, ds)
          else if x = code (CHR ''o'') \<or> x = code (CHR ''O'') then Some (8, is_oct, ds)
          else if x = code (CHR ''b'') \<or> x = code (CHR ''B'') then Some (2, is_bin, ds)
          else None
      | _ \<Rightarrow> None)"

text \<open>\<open>Number(s)\<close> for a string \<open>s\<close>: white space around the literal is dropped, the empty
  string is 0, a string that is no numeric literal as a whole is NaN, and the value of
  a literal is rounded to the nearest double.\<close>

definition Number :: "jsstring \<Rightarrow> jsnum" where
  "Number s =
     (let t = trim s
      in if t = [] then Fin 0
         else (case radix_prefix t of
                 Some (b, ok, ds) \<Rightarrow>
                   if ds \<noteq> [] \<and> list_all ok ds then fround (of_int (digits_value b ds)) else NaN
               | None \<Rightarrow>
                   (let (neg, u) = read_sign t
                    in if u = (js ''Infinity'') then (if neg then NInf else PInf)
                       else (case read_decimal u of None \<Rightarrow> NaN
                             | Some q \<Rightarrow> fround (if neg then - q else q)))))"

subsection \<open>\<open>String(number)\<close>\<close>

text \<open>The decimal numeral of an integer that is not negative.\<close>

function digits_of :: "int \<Rightarrow> jsstring" where
  "digits_of n =
     (if n < 10 then [nat (48 + n)] else digits_of (n div 10) @ [nat (48 + n mod 10)])"
  by pat_completeness auto
termination
  by (relation "measure nat") auto

declare digits_of.simps [simp del]

text \<open>The \<open>n\<close> with \<open>10 ^ (n - 1) \<le> q < 10 ^ n\<close>, for \<open>q > 0\<close>.\<close>

definition decexp :: "rat \<Rightarrow> int" where
  "decexp q =
     (let (p, d) = quotient_of q;
          e = int (length (digits_of p)) - int (length (digits_of d))
      in if pow10 e \<le> q then e + 1 else e)"

text \<open>
  \<open>Number::toString\<close> writes a finite \<open>q > 0\<close> with the integers \<open>n\<close>, \<open>k\<close>, \<open>s\<close> such that
  \<open>s\<close> has \<open>k\<close> digits, \<open>s * 10 ^ (n - k)\<close> rounds to \<open>q\<close> and \<open>k\<close> is least, \<open>s\<close> being the
  nearest to \<open>q\<close> where several fit. The candidates with \<open>k\<close> digits are the two
  neighbours of \<open>q\<close> on the grid \<open>10 ^ (n - k)\<close> and the next power of ten.
\<close>

definition digits_fit :: "rat \<Rightarrow> nat \<Rightarrow> int \<times> int \<Rightarrow> bool" where
  "digits_fit q k c =
     (case c of (n, s) \<Rightarrow>
        10 ^ (k - 1) \<le> s \<and> s < 10 ^ k \<and> fround (of_int s * pow10 (n - int k)) = Fin q)"

definition digits_candidates :: "rat \<Rightarrow> nat \<Rightarrow> (int \<times> int) list" where
  "digits_candidates q k =
     (let n = decexp q; f = \<lfloor>q / pow10 (n - int k)\<rfloor>
      in filter (digits_fit q k) [(n, f), (n, f + 1), (n + 1, 10 ^ (k - 1))])"

definition digits_error :: "rat \<Rightarrow> nat \<Rightarrow> int \<times> int \<Rightarrow> rat" where
  "digits_error q k c = (case c of (n, s) \<Rightarrow> \<bar>of_int s * pow10 (n - int k) - q\<bar>)"

fun nearest_candidate :: "rat \<Rightarrow> nat \<Rightarrow> (int \<times> int) list \<Rightarrow> (int \<times> int) option" where
  "nearest_candidate q k [] = None"
| "nearest_candidate q k (c # cs) =
     (case nearest_candidate q k cs of None \<Rightarrow> Some c
      | Some c' \<Rightarrow> if digits_error q k c' < digits_error q k c then Some c' else Some c)"

text \<open>The search for the least \<open>k\<close>, from \<open>k\<close> upwards; 17 digits always fit a double.\<close>

fun shortest_digits :: "nat \<Rightarrow> rat \<Rightarrow> nat \<Rightarrow> int \<times> nat \<times> int" where
  "shortest_digits 0 q k = (decexp q, k, \<lfloor>q / pow10 (decexp q - int k)\<rfloor>)"
| "shortest_digits (Suc fuel) q k =
     (case nearest_candidate q k (digits_candidates q k) of
        Some (n, s) \<Rightarrow> (n, k, s)
      | None \<Rightarrow> shortest_digits fuel q (Suc k))"

definition exponent_text :: "int \<Rightarrow> jsstring" where
  "exponent_text e = (if 0 \<le> e then (js ''e+'') @ digits_of e else (js ''e-'') @ digits_of (- e))"

definition format_digits :: "int \<times> nat \<times> int \<Rightarrow> jsstring" where
  "format_digits c =
     (case c of (n, k, s) \<Rightarrow>
        let ds = digits_of s in
        if int k \<le> n \<and> n \<le> 21 then ds @ replicate (nat (n - int k)) (code (CHR ''0''))
        else if 0 < n \<and> n \<le> 21 then take (nat n) ds @ (js ''.'') @ drop (nat n) ds
        else if - 6 < n \<and> n \<le> 0 then (js ''0.'') @ replicate (nat (- n)) (code (CHR ''0'')) @ ds
        else if k = 1 then ds @ exponent_text (n - 1)
        else take 1 ds @ (js ''.'') @ drop 1 ds @ exponent_text (n - 1))"

text \<open>\<open>String(x)\<close> for a number \<open>x\<close>. An integer below \<open>2 ^ 53\<close> is written by its
  decimal numeral, which is what the digit search gives for it; that case stands first.\<close>

definition String_pos :: "rat \<Rightarrow> jsstring" where
  "String_pos q =
     (if q = of_int \<lfloor>q\<rfloor> \<and> q < 2 ^ 53 then digits_of \<lfloor>q\<rfloor>
      else format_digits (shortest_digits 17 q 1))"

definition String :: "jsnum \<Rightarrow> jsstring" where
  "String x =
     (case x of NaN \<Rightarrow> (js ''NaN'') | PInf \<Rightarrow> (js ''Infinity'') | NInf \<Rightarrow> (js ''-Infinity'')
      | Fin q \<Rightarrow> if q = 0 then (js ''0'') else if q < 0 then (js ''-'') @ String_pos (- q) else String_pos q)"

section \<open>The content script (\<open>content.js\<close>)\<close>

subsection \<open>Text normalizers\<close>

text \<open>\<open>cleanText(value)\<close>: \<open>(value || '')\<close>, without U+200B, white space collapsed,
  trimmed. Every caller passes a string, \<open>null\<close> or \<open>undefined\<close>.\<close>

definition cleanText :: "jsstring option \<Rightarrow> jsstring" where
  "cleanText value =
     trim (collapse_spaces
       (filter (\<lambda>c. c \<noteq> 8203) (case value of None \<Rightarrow> [] | Some s \<Rightarrow> s)))"

text \<open>
  \<open>text.match(re)\<close> for a pattern without the \<open>g\<close> flag tries the start positions from
  left to right and takes the first at which the pattern matches. A pattern is given by
  its matcher at one position, which returns the captured groups.
\<close>

fun re_search :: "(jsstring \<Rightarrow> 'a option) \<Rightarrow> jsstring \<Rightarrow> 'a option" where
  "re_search m [] = m []"
| "re_search m (c # cs) = (case m (c # cs) of Some g \<Rightarrow> Some g | None \<Rightarrow> re_search m cs)"

text \<open>
  \<open>(\d+)\s*lit\<close> at one position: group 1 and the text after the literal. The greedy
  \<open>\d+\<close> takes the whole run of digits and \<open>\s*\<close> the whole run of white space;
  giving back a digit or a space leaves that character in front of the literal, which
  starts with a letter, so no shorter choice matches.
\<close>

definition digits_spaces_lit :: "jsstring \<Rightarrow> jsstring \<Rightarrow> (jsstring \<times> jsstring) option" where
  "digits_spaces_lit lit s =
     (let ds = takeWhile is_digit s; r = dropWhile is_space (dropWhile is_digit s)
      in if ds \<noteq> [] \<and> starts_with lit r then Some (ds, drop (length lit) r) else None)"

text \<open>\<open>/(\d+)\s*hours?/\<close>: the optional \<open>s\<close> ends the pattern and changes no group.\<close>

definition re_hours :: "jsstring \<Rightarrow> jsstring option" where
  "re_hours s = map_option fst (digits_spaces_lit (js ''hour'') s)"

text \<open>\<open>/(\d+)\s*minutes?/\<close>.\<close>

definition re_minutes :: "jsstring \<Rightarrow> jsstring option" where
  "re_minutes s = map_option fst (digits_spaces_lit (js ''minute'') s)"

text \<open>\<open>\b\<close> after a word character: the end of the text or a character outside \<open>\w\<close>.\<close>

definition word_end :: "jsstring \<Rightarrow> bool" where
  "word_end r = (case r of [] \<Rightarrow> True | c # cs \<Rightarrow> \<not> is_word c)"

text \<open>\<open>/(\d+)\s*mins?\b/\<close>: after \<open>min\<close> either an \<open>s\<close> and a word boundary, or a word
  boundary at once (which an \<open>s\<close> there excludes).\<close>

definition re_mins :: "jsstring \<Rightarrow> jsstring option" where
  "re_mins s =
     (case digits_spaces_lit (js ''min'') s of None \<Rightarrow> None
      | Some (ds, r) \<Rightarrow>
          if (case r of [] \<Rightarrow> False | c # cs \<Rightarrow> c = code (CHR ''s'') \<and> word_end cs) \<or> word_end r
          then Some ds else None)"

text \<open>\<open>/(\d+)/\<close>.\<close>

definition re_number :: "jsstring \<Rightarrow> jsstring option" where
  "re_number s = (let ds = takeWhile is_digit s in if ds \<noteq> [] then Some ds else None)"

definition extractMinutes :: "jsstring option \<Rightarrow> jsstring" where
  "extractMinutes value =
     (let text = toLowerCase (cleanText value)
      in if text = [] then []
         else
           let hoursMatch = re_search re_hours text;
               minutesMatch = re_search re_minutes text;
               minShortMatch = re_search re_mins text
           in if hoursMatch \<noteq> None \<or> minutesMatch \<noteq> None then
                (let hours = (case hoursMatch of Some g \<Rightarrow> Number g | None \<Rightarrow> Fin 0);
                     minutes = (case minutesMatch of Some g \<Rightarrow> Number g | None \<Rightarrow> Fin 0)
                 in String (js_add (js_mul hours (Fin 60)) minutes))
              else (case minShortMatch of Some g \<Rightarrow> String (Number g)
                    | None \<Rightarrow>
                        (case re_search re_number text of Some g \<Rightarrow> String (Number g)
                         | None \<Rightarrow> [])))"

text \<open>\<open>timestampToSeconds(value)\<close>; \<open>None\<close> is the result \<open>null\<close>.\<close>

definition timestampToSeconds :: "jsstring option \<Rightarrow> jsnum option" where
  "timestampToSeconds value =
     (let parts = map Number (split (code (CHR '':'')) (cleanText value))
      in if parts = [] \<or> list_ex isNaN parts then None
         else (case parts of
                 [h, m, s] \<Rightarrow> Some (js_add (js_add (js_mul h (Fin 3600)) (js_mul m (Fin 60))) s)
               | [m, s] \<Rightarrow> Some (js_add (js_mul m (Fin 60)) s)
               | [s] \<Rightarrow> Some s
               | _ \<Rightarrow> None))"

definition getDurationFromTimeRange :: "jsstring option \<Rightarrow> jsstring" where
  "getDurationFromTimeRange value =
     (let range = cleanText value
      in if range = [] then []
         else
           let parts = map (\<lambda>item. cleanText (Some item)) (split (code (CHR ''-'')) range)
           in (case parts of
                 [p0, p1] \<Rightarrow>
                   (case (timestampToSeconds (Some p0), timestampToSeconds (Some p1)) of
                      (Some start, Some end) \<Rightarrow>
                        if js_less end start then []
                        else String (Math_round (js_div (js_sub end start) (Fin 60)))
                    | _ \<Rightarrow> [])
               | _ \<Rightarrow> []))"

text \<open>\<open>getCourseSlug(pathname)\<close>; \<open>filter(Boolean)\<close> drops the empty segments.\<close>

definition getCourseSlug :: "jsstring \<Rightarrow> jsstring" where
  "getCourseSlug pathname =
     (let parts = filter (\<lambda>p. p \<noteq> []) (split (code (CHR ''/'')) pathname)
      in if (case parts of [] \<Rightarrow> True | p0 # ps \<Rightarrow> p0 \<noteq> (js ''courses'')) \<or> length parts < 2 then []
         else parts ! 1)"

text \<open>\<open>/^\d{4}-\d{2}-\d{2}$/\<close>.\<close>

definition re_iso_date :: "jsstring \<Rightarrow> bool" where
  "re_iso_date s =
     (case s of
        [y1, y2, y3, y4, h1, m1, m2, h2, d1, d2] \<Rightarrow>
          list_all is_digit [y1, y2, y3, y4, m1, m2, d1, d2] \<and> h1 = code (CHR ''-'') \<and> h2 = code (CHR ''-'')
      | _ \<Rightarrow> False)"

text \<open>
  \<open>/^([A-Za-z]+)\s+(\d{1,2}),\s*(\d{4})$/\<close>: the three groups. Letters, white space,
  digits and the comma are disjoint classes, so each greedy piece takes its whole run;
  \<open>\d{1,2}\<close> then needs a run of one or two digits before the comma.
\<close>

definition re_long_month :: "jsstring \<Rightarrow> (jsstring \<times> jsstring \<times> jsstring) option" where
  "re_long_month s =
     (let name = takeWhile is_alpha s; r1 = dropWhile is_alpha s;
          r2 = dropWhile is_space r1;
          day = takeWhile is_digit r2; r3 = dropWhile is_digit r2;
          year = dropWhile is_space (tl r3)
      in if name \<noteq> [] \<and> takeWhile is_space r1 \<noteq> [] \<and> (length day = 1 \<or> length day = 2)
            \<and> r3 \<noteq> [] \<and> hd r3 = code (CHR '','') \<and> length year = 4 \<and> list_all is_digit year
         then Some (name, day, year) else None)"

text \<open>The object literal \<open>monthMap\<close>: its own twelve properties.\<close>

definition monthMap :: "(jsstring \<times> jsstring) list" where
  "monthMap =
     [((js ''january''), (js ''01'')), ((js ''february''), (js ''02'')), ((js ''march''), (js ''03'')), ((js ''april''), (js ''04'')),
      ((js ''may''), (js ''05'')), ((js ''june''), (js ''06'')), ((js ''july''), (js ''07'')), ((js ''august''), (js ''08'')),
      ((js ''september''), (js ''09'')), ((js ''october''), (js ''10'')), ((js ''november''), (js ''11'')), ((js ''december''), (js ''12''))]"

text \<open>
  \<open>monthMap[key]\<close> is a property read: a key that is no own property is looked up on
  \<open>Object.prototype\<close>. The keys read here are lower-case words (group 1 of the pattern,
  lower-cased), and \<open>constructor\<close> is the one property of \<open>Object.prototype\<close> with such
  a name: its value is the function \<open>Object\<close>, which is truthy and which the template
  literal writes as the text below. \<open>None\<close> is \<open>undefined\<close>.
\<close>

definition monthMap_get :: "jsstring \<Rightarrow> jsstring option" where
  "monthMap_get key =
     (case map_of monthMap key of Some v \<Rightarrow> Some v
      | None \<Rightarrow> if key = (js ''constructor'') then Some (js ''function Object() { [native code] }'') else None)"

definition normalizePublishedDate :: "jsstring option \<Rightarrow> jsstring" where
  "normalizePublishedDate value =
     (let text = cleanText value
      in if text = [] then []
         else if re_iso_date text then text
         else (case re_long_month text of
                 Some (name, d, year) \<Rightarrow>
                   (let month = monthMap_get (toLowerCase name);
                        day = padStart0 2 (String (Number d))
                    in (case month of Some mm \<Rightarrow> year @ (js ''-'') @ mm @ (js ''-'') @ day | None \<Rightarrow> []))
               | None \<Rightarrow> []))"

subsection \<open>The page\<close>

text \<open>
  The page is third-party markup; the script reads it through selector queries only.
  A node is modelled by the answers to the queries the script puts to it: \<open>None\<close> where
  \<open>querySelector\<close> finds no element (or \<open>getAttribute\<close> no attribute), the
  \<open>textContent\<close> of the element found otherwise.
\<close>

text \<open>An anchor: its \<open>textContent\<close> and its \<open>href\<close> attribute.\<close>

record anchor =
  a_text :: jsstring
  a_href :: "jsstring option"

text \<open>The element \<open>a.timestamp\<close> of a lesson item: its \<open>href\<close> and the \<open>textContent\<close>
  of its \<open>span\<close> descendants, in document order.\<close>

record timestamp_link =
  ts_href :: "jsstring option"
  ts_spans :: "jsstring list"

text \<open>An element \<open>li.Course-Lesson-List-Item\<close>: what \<open>.title a\<close>, \<open>.description\<close>,
  \<open>a.timestamp\<close> and \<open>a.thumbnail\<close> select in it (for the last, its \<open>href\<close>).\<close>

record lesson_item =
  li_title :: "anchor option"
  li_description :: "jsstring option"
  li_timestamp :: "timestamp_link option"
  li_thumbnail :: "jsstring option option"

text \<open>A node selected by \<open>.Course-Lesson-Group, ul.Course-Lesson-List\<close>: which of the two
  selectors it matches, its \<open>h3\<close> and \<open>.duration\<close> text, and its lesson items.\<close>

record seq_node =
  n_group :: bool
  n_list :: bool
  n_h3 :: "jsstring option"
  n_duration :: "jsstring option"
  n_items :: "lesson_item list"

text \<open>An \<open>h3\<close> element: its text and its wrapper (\<open>closest('.content')\<close> or else the
  parent element; \<open>None\<close> when there is neither), given by the text of the first \<open>p\<close>
  inside the wrapper, if any.\<close>

record h3_node =
  h_text :: jsstring
  h_wrapper :: "jsstring option option"

record document =
  d_title :: "jsstring option"
  d_h3 :: "h3_node list"
  d_content_p :: "jsstring option"
  d_tutor :: "jsstring option"
  d_header_meta :: "jsstring option"
  d_group_durations :: "jsstring list"
  d_sequence :: "seq_node list"

text \<open>The \<open>window\<close>: the location, the document, and the browser's URL parser,
  \<open>w_URL href base\<close> being \<open>new URL(href, base).href\<close> and \<open>None\<close> where the constructor
  throws. The parser is the browser's and stays a parameter.\<close>

record window =
  w_pathname :: jsstring
  w_origin :: jsstring
  w_URL :: "jsstring \<Rightarrow> jsstring \<Rightarrow> jsstring option"
  w_document :: document

subsection \<open>Record builders\<close>

record course_data =
  courseTitle :: jsstring
  courseDescription :: jsstring
  tutor :: jsstring
  totalDuration :: jsstring
  publishedDate :: jsstring
  sectionCount :: "nat option"
  lessonCount :: "nat option"
  courseUrl :: "jsstring option"

record lesson =
  l_id :: nat
  l_title :: jsstring
  l_description :: jsstring
  l_duration :: jsstring
  timeRange :: jsstring
  lessonUrl :: jsstring
  sectionId :: nat
  sectionTitle :: jsstring
  sectionDuration :: jsstring

definition toAbsoluteUrl :: "window \<Rightarrow> jsstring option \<Rightarrow> jsstring" where
  "toAbsoluteUrl w value =
     (let href = cleanText value
      in if href = [] then []
         else (case w_URL w href (w_origin w) of Some u \<Rightarrow> u | None \<Rightarrow> []))"

definition buildCourseUrl :: "window \<Rightarrow> jsstring \<Rightarrow> jsstring" where
  "buildCourseUrl w slug = (if slug = [] then [] else w_origin w @ (js ''/courses/'') @ slug @ (js ''/''))"

definition getCourseDescription :: "document \<Rightarrow> jsstring" where
  "getCourseDescription d =
     (let descriptionHeading =
            find (\<lambda>item. toLowerCase (cleanText (Some (h_text item))) = (js ''course description''))
              (d_h3 d);
          paragraph =
            (case descriptionHeading of None \<Rightarrow> None
             | Some h \<Rightarrow> (case h_wrapper h of None \<Rightarrow> None | Some p \<Rightarrow> p))
      in (case paragraph of Some t \<Rightarrow> cleanText (Some t)
          | None \<Rightarrow> cleanText (Some (case d_content_p d of Some t \<Rightarrow> t | None \<Rightarrow> []))))"

definition getPublishedDate :: "document \<Rightarrow> jsstring" where
  "getPublishedDate d =
     (case find (\<lambda>t. str_includes (toLowerCase (cleanText (Some t))) (js ''published''))
             (d_group_durations d) of
        None \<Rightarrow> []
      | Some t \<Rightarrow>
          (let text = cleanText (Some t); parts = split (code (CHR '':'')) text
           in if 1 < length parts then cleanText (Some (join (code (CHR '':'')) (tl parts))) else text))"

definition extractCourseData :: "document \<Rightarrow> course_data" where
  "extractCourseData d =
     \<lparr> courseTitle = cleanText (d_title d),
       courseDescription = getCourseDescription d,
       tutor = cleanText (d_tutor d),
       totalDuration =
         extractMinutes (Some (case d_header_meta d of Some t \<Rightarrow> t | None \<Rightarrow> [])),
       publishedDate = normalizePublishedDate (Some (getPublishedDate d)),
       sectionCount = None, lessonCount = None, courseUrl = None \<rparr>"

definition extractTimeRange :: "lesson_item \<Rightarrow> jsstring" where
  "extractTimeRange lessonItem =
     (case li_timestamp lessonItem of None \<Rightarrow> []
      | Some timestampLink \<Rightarrow>
          (case ts_spans timestampLink of [] \<Rightarrow> [] | sp # sps \<Rightarrow> cleanText (Some sp)))"

text \<open>The first element present among \<open>.title a\<close>, \<open>a.timestamp\<close> and \<open>a.thumbnail\<close>,
  by its \<open>href\<close> attribute; no element, or one without \<open>href\<close>, gives \<open>None\<close>.\<close>

definition extractLessonUrl :: "window \<Rightarrow> lesson_item \<Rightarrow> jsstring" where
  "extractLessonUrl w lessonItem =
     toAbsoluteUrl w
       (case li_title lessonItem of Some a \<Rightarrow> a_href a
        | None \<Rightarrow>
            (case li_timestamp lessonItem of Some t \<Rightarrow> ts_href t
             | None \<Rightarrow> (case li_thumbnail lessonItem of Some h \<Rightarrow> h | None \<Rightarrow> None)))"

subsection \<open>The document walker\<close>

record course_section =
  s_id :: nat
  s_title :: jsstring
  s_duration :: jsstring

text \<open>The variables of the loop of \<open>extractLessons\<close>. The two counters count nodes of
  one page and stay far below \<open>2 ^ 53\<close>, where \<open>+= 1\<close> is exact.\<close>

record walker =
  lessons :: "lesson list"
  nextSectionId :: nat
  nextLessonId :: nat
  currentSection :: "course_section option"

text \<open>The body of the inner loop: one lesson item, under the current section.\<close>

definition push_lesson :: "window \<Rightarrow> course_section \<Rightarrow> walker \<Rightarrow> lesson_item \<Rightarrow> walker" where
  "push_lesson w cur st lessonItem =
     (let title = cleanText (map_option a_text (li_title lessonItem));
          description = cleanText (li_description lessonItem);
          timeRange = extractTimeRange lessonItem;
          duration = getDurationFromTimeRange (Some timeRange);
          lessonUrl = extractLessonUrl w lessonItem
      in st \<lparr> lessons := lessons st @
                 [\<lparr> l_id = nextLessonId st, l_title = title, l_description = description,
                    l_duration = duration, timeRange = timeRange, lessonUrl = lessonUrl,
                    sectionId = s_id cur, sectionTitle = s_title cur,
                    sectionDuration = s_duration cur \<rparr>],
               nextLessonId := nextLessonId st + 1 \<rparr>)"

text \<open>The body of the outer loop: one node of the sequence.\<close>

definition walk_node :: "window \<Rightarrow> walker \<Rightarrow> seq_node \<Rightarrow> walker" where
  "walk_node w st node =
     (if n_group node then
        st \<lparr> currentSection :=
               Some \<lparr> s_id = nextSectionId st, s_title = cleanText (n_h3 node),
                      s_duration = extractMinutes (n_duration node) \<rparr>,
             nextSectionId := nextSectionId st + 1 \<rparr>
      else if \<not> n_list node then st
      else
        (case currentSection st of
           None \<Rightarrow>
             foldl (push_lesson w \<lparr> s_id = nextSectionId st, s_title = [], s_duration = [] \<rparr>)
               (st \<lparr> currentSection :=
                       Some \<lparr> s_id = nextSectionId st, s_title = [], s_duration = [] \<rparr>,
                     nextSectionId := nextSectionId st + 1 \<rparr>)
               (n_items node)
         | Some cur \<Rightarrow> foldl (push_lesson w cur) st (n_items node)))"

definition walker_init :: walker where
  "walker_init = \<lparr> lessons = [], nextSectionId = 1001, nextLessonId = 1, currentSection = None \<rparr>"

text \<open>The loop over a sequence of nodes, from any state of the variables.\<close>

definition walk :: "window \<Rightarrow> walker \<Rightarrow> seq_node list \<Rightarrow> walker" where
  "walk w st sequence = foldl (walk_node w) st sequence"

definition extractLessons :: "window \<Rightarrow> lesson list" where
  "extractLessons w = lessons (walk w walker_init (d_sequence (w_document w)))"

text \<open>The sections the loop assigns, in the order of assignment: a step that advances
  the section counter has made the section that is current after it.\<close>

definition assigned_by :: "walker \<Rightarrow> walker \<Rightarrow> course_section list" where
  "assigned_by st st' =
     (if nextSectionId st' = nextSectionId st then []
      else (case currentSection st' of None \<Rightarrow> [] | Some sec \<Rightarrow> [sec]))"

fun assignedSections :: "window \<Rightarrow> walker \<Rightarrow> seq_node list \<Rightarrow> course_section list" where
  "assignedSections w st [] = []"
| "assignedSections w st (node # nodes) =
     assigned_by st (walk_node w st node) @ assignedSections w (walk_node w st node) nodes"

text \<open>The text fields of a lesson, and what the inner loop reads for them from a
  lesson item.\<close>

definition lesson_fields :: "lesson \<Rightarrow> jsstring \<times> jsstring \<times> jsstring \<times> jsstring \<times> jsstring" where
  "lesson_fields l = (l_title l, l_description l, timeRange l, l_duration l, lessonUrl l)"

definition item_fields :: "window \<Rightarrow> lesson_item \<Rightarrow> jsstring \<times> jsstring \<times> jsstring \<times> jsstring \<times> jsstring" where
  "item_fields w it =
     (cleanText (map_option a_text (li_title it)), cleanText (li_description it),
      extractTimeRange it, getDurationFromTimeRange (Some (extractTimeRange it)),
      extractLessonUrl w it)"

text \<open>What holds of the variables between two nodes: the lesson ids run from 1, the
  section ids of the lessons never decrease, are below the counter and not above the
  current section's, and lessons of one section carry one title and one duration.\<close>

definition walker_inv :: "walker \<Rightarrow> bool" where
  "walker_inv st =
     (map l_id (lessons st) = [1 ..< nextLessonId st] \<and> 1 \<le> nextLessonId st
      \<and> 1001 \<le> nextSectionId st
      \<and> sorted (map sectionId (lessons st))
      \<and> (\<forall>a\<in>set (lessons st). \<forall>b\<in>set (lessons st). sectionId a = sectionId b \<longrightarrow>
            sectionTitle a = sectionTitle b \<and> sectionDuration a = sectionDuration b)
      \<and> (\<forall>l\<in>set (lessons st). 1001 \<le> sectionId l \<and> sectionId l < nextSectionId st)
      \<and> (case currentSection st of None \<Rightarrow> lessons st = []
          | Some cur \<Rightarrow>
              1001 \<le> s_id cur \<and> s_id cur < nextSectionId st
              \<and> (\<forall>l\<in>set (lessons st). sectionId l \<le> s_id cur
                    \<and> (sectionId l = s_id cur \<longrightarrow>
                          sectionTitle l = s_title cur \<and> sectionDuration l = s_duration cur))))"

subsection \<open>The payload\<close>

text \<open>A thrown value: an \<open>Error\<close> with its message, or any other value, kept as the
  text \<open>String(value || '')\<close> that \<open>getErrorMessage\<close> reads from it.\<close>

datatype js_error = Error jsstring | NonError jsstring

record payload =
  courseData :: course_data
  p_lessons :: "lesson list"

record extract_result =
  slug :: jsstring
  payload :: payload

definition extractCoursePayload :: "window \<Rightarrow> js_error + extract_result" where
  "extractCoursePayload w =
     (let slug = getCourseSlug (w_pathname w)
      in if slug = [] then Inl (Error (js ''URL is not in /courses/<course-slug>/ format.''))
         else
           let courseData = extractCourseData (w_document w)
           in if courseTitle courseData = [] then
                Inl (Error (js ''Course information could not be found on the page.''))
              else
                let lessons = extractLessons w;
                    sectionIds =
                      remdups (filter (\<lambda>sectionId. isFinite (Fin (of_nat sectionId)))
                        (map sectionId lessons))
                in Inr \<lparr> slug = slug,
                         payload =
                           \<lparr> courseData =
                               courseData \<lparr> sectionCount := Some (length sectionIds),
                                            lessonCount := Some (length lessons),
                                            courseUrl := Some (buildCourseUrl w slug) \<rparr>,
                             p_lessons = lessons \<rparr> \<rparr>)"

text \<open>The response of the message listener.\<close>

record response =
  r_ok :: bool
  r_data :: "extract_result option"
  r_error :: "jsstring option"

text \<open>\<open>handleExtractMessage\<close>: \<open>None\<close> where the listener returns without answering
  (the message has another \<open>type\<close>), the response sent otherwise.\<close>

definition handleExtractMessage :: "window \<Rightarrow> jsstring option \<Rightarrow> response option" where
  "handleExtractMessage w message_type =
     (if message_type \<noteq> Some (js ''extract-course-data'') then None
      else (case extractCoursePayload w of
              Inr data \<Rightarrow> Some \<lparr> r_ok = True, r_data = Some data, r_error = None \<rparr>
            | Inl (Error message) \<Rightarrow>
                Some \<lparr> r_ok = False, r_data = None, r_error = Some message \<rparr>
            | Inl (NonError v) \<Rightarrow>
                Some \<lparr> r_ok = False, r_data = None, r_error = Some (js ''Unknown error.'') \<rparr>))"

section \<open>The popup (\<open>popup.js\<close>)\<close>

subsection \<open>The active tab\<close>





definition getErrorMessage :: "js_error \<Rightarrow> jsstring" where
  "getErrorMessage error = (case error of Error message \<Rightarrow> message | NonError v \<Rightarrow> v)"

definition isMissingReceiverError :: "js_error \<Rightarrow> bool" where
  "isMissingReceiverError error =
     str_includes (getErrorMessage error) (js ''Receiving end does not exist'')"

subsection \<open>The browser during one request\<close>








subsection \<open>The task list\<close>

text \<open>
  The payload reaches the popup as a message, and the popup reads it property by
  property. A property holds a primitive value; a missing property reads \<open>undefined\<close>.
\<close>

datatype jsval = Undefined | Null | Bool bool | Num jsnum | Str jsstring

text \<open>The truth value of a value in a condition.\<close>

definition truthy :: "jsval \<Rightarrow> bool" where
  "truthy v =
     (case v of Undefined \<Rightarrow> False | Null \<Rightarrow> False | Bool b \<Rightarrow> b
      | Num x \<Rightarrow> x \<noteq> NaN \<and> x \<noteq> Fin 0 | Str s \<Rightarrow> s \<noteq> [])"

text \<open>\<open>String(v)\<close>.\<close>

definition String_val :: "jsval \<Rightarrow> jsstring" where
  "String_val v =
     (case v of Undefined \<Rightarrow> js ''undefined'' | Null \<Rightarrow> js ''null''
      | Bool b \<Rightarrow> (if b then js ''true'' else js ''false'')
      | Num x \<Rightarrow> String x | Str s \<Rightarrow> s)"

text \<open>A lesson as the popup reads it.\<close>

record popup_lesson =
  pl_id :: jsval
  pl_title :: jsval
  pl_duration :: jsval
  pl_lessonUrl :: jsval

text \<open>The payload as \<open>buildV2Payload\<close> reads it: \<open>ep_lessons\<close> is \<open>None\<close> where
  \<open>payload.lessons\<close> is no array; an element of the array that is \<open>null\<close> or
  \<open>undefined\<close> is \<open>None\<close>.\<close>

record extracted_payload =
  ep_lessons :: "popup_lesson option list option"

record task =
  content :: jsstring
  description :: jsstring

text \<open>The function mapped over the lessons; \<open>\n\<close> is the code unit 10.\<close>

definition build_task :: "popup_lesson option \<Rightarrow> task" where
  "build_task lesson =
     (let id = (case lesson of None \<Rightarrow> []
                | Some l \<Rightarrow> if pl_id l \<noteq> Undefined then String_val (pl_id l) else []);
          title = (case lesson of None \<Rightarrow> []
                   | Some l \<Rightarrow> if truthy (pl_title l) then String_val (pl_title l) else []);
          duration = (case lesson of None \<Rightarrow> []
                      | Some l \<Rightarrow> if truthy (pl_duration l) then String_val (pl_duration l) else []);
          lessonUrl = (case lesson of None \<Rightarrow> []
                       | Some l \<Rightarrow>
                           if truthy (pl_lessonUrl l) then String_val (pl_lessonUrl l) else [])
      in \<lparr> content = id @ js ''. '' @ title @ js '' []'',
           description = js ''- Duration: '' @ duration @ js '' min'' @ [10]
                         @ js ''- Url: '' @ lessonUrl \<rparr>)"

text \<open>\<open>buildV2Payload(payload)\<close>: the array \<open>tasks\<close> of the object returned.\<close>

definition buildV2Payload :: "extracted_payload option \<Rightarrow> task list" where
  "buildV2Payload p =
     (let lessons = (case p of None \<Rightarrow> []
                     | Some pl \<Rightarrow> (case ep_lessons pl of Some ls \<Rightarrow> ls | None \<Rightarrow> []))
      in map build_task lessons)"

text \<open>The payload of the content script as it reaches the popup: every property of
  every lesson is present, the \<open>id\<close> a number, the others strings.\<close>

definition received :: "payload \<Rightarrow> extracted_payload" where
  "received p =
     \<lparr> ep_lessons =
         Some (map (\<lambda>l. Some \<lparr> pl_id = Num (Fin (of_nat (l_id l))), pl_title = Str (l_title l),
                                pl_duration = Str (l_duration l),
                                pl_lessonUrl = Str (lessonUrl l) \<rparr>)
                 (p_lessons p)) \<rparr>"

section \<open>An example page\<close>

text \<open>A page with a lesson list before the first header, a header without lessons and
  lesson items that miss some of their elements.\<close>

definition sample_sequence :: "seq_node list" where
  "sample_sequence =
     [\<lparr> n_group = False, n_list = True, n_h3 = None, n_duration = None,
        n_items =
          [\<lparr> li_title = Some \<lparr> a_text = (js ''Welcome''), a_href = Some (js ''/w/'') \<rparr>,
             li_description = None, li_timestamp = None, li_thumbnail = None \<rparr>] \<rparr>,
      \<lparr> n_group = True, n_list = False, n_h3 = Some (js '' Introduction ''),
        n_duration = Some (js ''10 minutes''), n_items = [] \<rparr>,
      \<lparr> n_group = False, n_list = True, n_h3 = None, n_duration = None,
        n_items =
          [\<lparr> li_title = Some \<lparr> a_text = (js ''Setup''), a_href = None \<rparr>,
             li_description = Some (js ''Install''),
             li_timestamp = Some \<lparr> ts_href = Some (js ''/s/''), ts_spans = [(js ''00:00:00 - 00:05:00'')] \<rparr>,
             li_thumbnail = None \<rparr>,
           \<lparr> li_title = None, li_description = None,
             li_timestamp = Some \<lparr> ts_href = Some (js ''/t/''), ts_spans = [(js ''00:05:00 - 00:12:00'')] \<rparr>,
             li_thumbnail = Some (Some (js ''/img/'')) \<rparr>] \<rparr>,
      \<lparr> n_group = True, n_list = False, n_h3 = None, n_duration = None, n_items = [] \<rparr>,
      \<lparr> n_group = True, n_list = False, n_h3 = Some (js ''JSX''), n_duration = None, n_items = [] \<rparr>,
      \<lparr> n_group = False, n_list = True, n_h3 = None, n_duration = None,
        n_items =
          [\<lparr> li_title = None, li_description = Some (js ''Markup''), li_timestamp = None,
             li_thumbnail = Some None \<rparr>] \<rparr>]"

definition sample_document :: document where
  "sample_document =
     \<lparr> d_title = Some (js '' Intro to  React ''),
       d_h3 = [\<lparr> h_text = (js ''Course Description''), h_wrapper = Some (Some (js ''Learn React.'')) \<rparr>],
       d_content_p = None, d_tutor = None, d_header_meta = Some (js ''5 hours, 30 minutes''),
       d_group_durations = [(js ''Published: March 3, 2022'')],
       d_sequence = sample_sequence \<rparr>"

definition sample_window :: window where
  "sample_window =
     \<lparr> w_pathname = (js ''/courses/react/''), w_origin = (js ''https://frontendmasters.com''),
       w_URL = (\<lambda>href base. Some (base @ href)), w_document = sample_document \<rparr>"


subsection \<open>Browsers\<close>







section \<open>Properties of the numbers\<close>

lemma round_even_of_int [simp]: "round_even (of_int m) = m"
  by (simp add: round_even_def)

lemma pow2_nonneg: "0 \<le> e \<Longrightarrow> pow2 e = 2 ^ nat e"
  by (simp add: pow2_def)

lemma pow2_pos [simp]: "0 < pow2 e"
  by (simp add: pow2_def)

lemma bitlen_1 [simp]: "bitlen 1 = 1"
  using bitlen_twopow_add_eq [of 0 0] by simp

lemma bitlen_ge_1: "0 < n \<Longrightarrow> 1 \<le> bitlen n"
  using bitlen_eq_zero_iff [of n] bitlen_nonneg [of n] by linarith

lemma binexp_of_int:
  assumes "0 < n"
  shows "binexp (of_int n) = bitlen n - 1"
proof -
  have "(2::int) ^ nat (bitlen n - 1) \<le> n" using bitlen_bounds [OF assms] ..
  then have "(of_int ((2::int) ^ nat (bitlen n - 1)) :: rat) \<le> of_int n"
    by (simp only: of_int_le_iff)
  then have "pow2 (bitlen n - 1) \<le> of_int n"
    using bitlen_ge_1 [OF assms] by (simp add: pow2_def)
  then show ?thesis by (simp add: binexp_def)
qed

lemma fround_pos_int:
  assumes "0 < n" and "n < 2 ^ 53"
  shows "fround (of_int n) = Fin (of_int n)"
proof -
  have b1: "1 \<le> bitlen n" using assms(1) by (rule bitlen_ge_1)
  have b2: "bitlen n \<le> 53" using assms(2) by (simp add: bitlen_le_iff_power)
  define j where "j = nat (53 - bitlen n)"
  have t: "max (binexp (of_int n)) (- 1022) - 52 = - int j"
    using b1 b2 by (simp add: binexp_of_int [OF assms(1)] j_def)
  have p: "pow2 (- int j) = 1 / 2 ^ j"
    by (auto simp: pow2_def)
  have m: "(of_int n :: rat) / pow2 (- int j) = of_int (n * 2 ^ j)"
    by (simp add: p)
  have v: "of_int (round_even (of_int n / pow2 (- int j))) * pow2 (- int j) = (of_int n :: rat)"
    unfolding m round_even_of_int by (simp add: p)
  have "(of_int n :: rat) < of_int (2 ^ 1024)"
    using assms(2) by (simp only: of_int_less_iff) (rule less_trans, assumption, simp)
  then have small: "\<not> pow2 1024 \<le> (of_int n :: rat)"
    by (simp add: pow2_def)
  have n0: "(of_int n :: rat) \<noteq> 0" "0 < (of_int n :: rat)" using assms(1) by simp_all
  show ?thesis
    unfolding fround_def Let_def using n0 assms(1) small by (simp add: t v)
qed

lemma fround_zero [simp]: "fround 0 = Fin 0"
  by (simp add: fround_def)

lemma fround_minus: "fround (- q) = js_neg (fround q)"
  by (simp add: fround_def Let_def js_neg_def)

lemma fround_int:
  assumes "\<bar>n\<bar> < 2 ^ 53"
  shows "fround (of_int n) = Fin (of_int n)"
proof -
  consider "n = 0" | "0 < n" | "n < 0" by linarith
  then show ?thesis
  proof cases
    case 1 then show ?thesis by simp
  next
    case 2 then show ?thesis using assms by (simp add: fround_pos_int)
  next
    case 3
    then have "fround (of_int (- n)) = Fin (of_int (- n))"
      using assms by (intro fround_pos_int) simp_all
    then have "fround (- of_int n) = Fin (- of_int n)" by simp
    then show ?thesis unfolding fround_minus by (cases "fround (of_int n)") (simp_all add: js_neg_def)
  qed
qed

lemma fround_numeral [simp]:
  "numeral k < (2::int) ^ 53 \<Longrightarrow> fround (numeral k) = Fin (numeral k)"
  using fround_int [of "numeral k"] by simp

lemma fround_1 [simp]: "fround 1 = Fin 1"
  using fround_int [of 1] by simp

lemma digits_of_numeral [simp]:
  "digits_of (numeral k) =
     (if (numeral k :: int) < 10 then [nat (48 + (numeral k :: int))]
      else digits_of (numeral k div 10) @ [nat (48 + (numeral k :: int) mod 10)])"
  by (rule digits_of.simps)

lemma digits_of_0 [simp]: "digits_of 0 = js ''0''"
  by (simp add: digits_of.simps js_def code_def)

lemma digits_of_1 [simp]: "digits_of 1 = js ''1''"
  by (simp add: digits_of.simps js_def code_def)

lemma digit_not_space: "is_digit c \<Longrightarrow> \<not> is_space c"
  by (auto simp: is_digit_def is_space_def)

lemma trim_digits:
  assumes "ds \<noteq> []" and "list_all is_digit ds"
  shows "trim ds = ds"
proof -
  have h: "\<not> is_space (hd ds)" using assms by (cases ds) (auto simp: digit_not_space)
  have l: "\<not> is_space (hd (rev ds))"
    using assms by (simp add: hd_rev list_all_iff digit_not_space)
  have "dropWhile is_space ds = ds" using h assms(1) by (cases ds) simp_all
  moreover have "dropWhile is_space (rev ds) = rev ds"
    using l assms(1) by (cases "rev ds") simp_all
  ultimately show ?thesis by (simp add: trim_def)
qed

lemma radix_prefix_digits: "list_all is_digit ds \<Longrightarrow> radix_prefix ds = None"
  by (auto simp: radix_prefix_def is_digit_def code_def split: list.splits)

lemma read_sign_digits: "ds \<noteq> [] \<Longrightarrow> list_all is_digit ds \<Longrightarrow> read_sign ds = (False, ds)"
  by (cases ds) (auto simp: read_sign_def is_digit_def code_def)

lemma read_decimal_digits:
  "ds \<noteq> [] \<Longrightarrow> list_all is_digit ds \<Longrightarrow> read_decimal ds = Some (of_int (digits_value 10 ds))"
  by (simp add: read_decimal_def Let_def list_all_iff read_exponent_def pow10_def
      takeWhile_eq_all_conv [THEN iffD2] dropWhile_eq_Nil_conv [THEN iffD2])

lemma Number_digits:
  assumes "ds \<noteq> []" and "list_all is_digit ds"
  shows "Number ds = fround (of_int (digits_value 10 ds))"
proof -
  have "ds \<noteq> js ''Infinity''" using assms(2) by (auto simp: is_digit_def js_def code_def)
  then show ?thesis
    using assms
    by (simp add: Number_def trim_digits radix_prefix_digits read_sign_digits read_decimal_digits)
qed

lemma String_int: "0 \<le> n \<Longrightarrow> n < 2 ^ 53 \<Longrightarrow> String (Fin (of_int n)) = digits_of n"
  by (auto simp: String_def String_pos_def)

lemma String_numeral [simp]:
  "numeral k < (2::int) ^ 53 \<Longrightarrow> String (Fin (numeral k)) = digits_of (numeral k)"
  using String_int [of "numeral k"] by simp

lemma String_0 [simp]: "String (Fin 0) = (js ''0'')"
  using String_int [of 0] by simp

lemma String_1 [simp]: "String (Fin 1) = (js ''1'')"
  using String_int [of 1] by simp

lemmas char_defs = js_def code_def is_digit_def is_space_def is_alpha_def is_word_def
  lower_unit_def

section \<open>Properties of the document walker\<close>

subsection \<open>One lesson item, one node\<close>

lemma push_lesson_fields:
  "nextSectionId (push_lesson w cur st it) = nextSectionId st"
  "currentSection (push_lesson w cur st it) = currentSection st"
  "nextLessonId (push_lesson w cur st it) = nextLessonId st + 1"
  by (simp_all add: push_lesson_def Let_def)

lemma push_lesson_lessons:
  "\<exists>x. lessons (push_lesson w cur st it) = lessons st @ [x] \<and> l_id x = nextLessonId st
       \<and> sectionId x = s_id cur \<and> sectionTitle x = s_title cur
       \<and> sectionDuration x = s_duration cur"
  by (simp add: push_lesson_def Let_def)

lemma foldl_push_fields:
  "nextSectionId (foldl (push_lesson w cur) st its) = nextSectionId st"
  "currentSection (foldl (push_lesson w cur) st its) = currentSection st"
  "nextLessonId (foldl (push_lesson w cur) st its) = nextLessonId st + length its"
  by (induction its arbitrary: st) (simp_all add: push_lesson_fields)

lemma foldl_push_lessons:
  "\<exists>new. lessons (foldl (push_lesson w cur) st its) = lessons st @ new
       \<and> map l_id new = [nextLessonId st ..< nextLessonId st + length its]
       \<and> (\<forall>l\<in>set new. sectionId l = s_id cur \<and> sectionTitle l = s_title cur
             \<and> sectionDuration l = s_duration cur)"
proof (induction its arbitrary: st)
  case Nil
  show ?case by simp
next
  case (Cons it its)
  obtain x where x: "lessons (push_lesson w cur st it) = lessons st @ [x]"
      "l_id x = nextLessonId st" "sectionId x = s_id cur" "sectionTitle x = s_title cur"
      "sectionDuration x = s_duration cur"
    using push_lesson_lessons by blast
  obtain new where new:
      "lessons (foldl (push_lesson w cur) (push_lesson w cur st it) its)
         = lessons (push_lesson w cur st it) @ new"
      "map l_id new = [nextLessonId (push_lesson w cur st it) ..<
                        nextLessonId (push_lesson w cur st it) + length its]"
      "\<forall>l\<in>set new. sectionId l = s_id cur \<and> sectionTitle l = s_title cur
             \<and> sectionDuration l = s_duration cur"
    using Cons.IH by blast
  have "lessons (foldl (push_lesson w cur) st (it # its)) = lessons st @ (x # new)"
    using x(1) new(1) by simp
  moreover have "map l_id (x # new) = [nextLessonId st ..< nextLessonId st + length (it # its)]"
  proof -
    have "[nextLessonId st ..< nextLessonId st + length (it # its)]
          = nextLessonId st # [Suc (nextLessonId st) ..< Suc (nextLessonId st) + length its]"
      by (simp add: upt_conv_Cons del: upt_Suc)
    then show ?thesis using x(2) new(2) by (simp add: push_lesson_fields del: upt_Suc)
  qed
  moreover have "\<forall>l\<in>set (x # new). sectionId l = s_id cur \<and> sectionTitle l = s_title cur
             \<and> sectionDuration l = s_duration cur"
    using x new(3) by simp
  ultimately show ?case by blast
qed

text \<open>What one node does to the variables.\<close>

lemma walk_node_group:
  "n_group node \<Longrightarrow> walk_node w st node =
     st \<lparr> currentSection :=
            Some \<lparr> s_id = nextSectionId st, s_title = cleanText (n_h3 node),
                   s_duration = extractMinutes (n_duration node) \<rparr>,
          nextSectionId := nextSectionId st + 1 \<rparr>"
  by (simp add: walk_node_def)

lemma walk_node_skip: "\<not> n_group node \<Longrightarrow> \<not> n_list node \<Longrightarrow> walk_node w st node = st"
  by (simp add: walk_node_def)

lemma walk_node_list_some:
  "\<not> n_group node \<Longrightarrow> n_list node \<Longrightarrow> currentSection st = Some cur \<Longrightarrow>
   walk_node w st node = foldl (push_lesson w cur) st (n_items node)"
  by (simp add: walk_node_def)

lemma walk_node_list_none:
  "\<not> n_group node \<Longrightarrow> n_list node \<Longrightarrow> currentSection st = None \<Longrightarrow>
   walk_node w st node =
     foldl (push_lesson w \<lparr> s_id = nextSectionId st, s_title = [], s_duration = [] \<rparr>)
       (st \<lparr> currentSection := Some \<lparr> s_id = nextSectionId st, s_title = [], s_duration = [] \<rparr>,
             nextSectionId := nextSectionId st + 1 \<rparr>)
       (n_items node)"
  by (simp add: walk_node_def)

lemmas walk_node_cases = walk_node_group walk_node_skip walk_node_list_some walk_node_list_none

lemma assigned_ids_step:
  "map s_id (assigned_by st (walk_node w st node))
     = [nextSectionId st ..< nextSectionId (walk_node w st node)]"
proof (cases "n_group node")
  case True
  then show ?thesis by (simp add: walk_node_group assigned_by_def upt_conv_Cons)
next
  case False
  show ?thesis
  proof (cases "n_list node")
    case False
    with \<open>\<not> n_group node\<close> show ?thesis by (simp add: walk_node_skip assigned_by_def)
  next
    case True
    show ?thesis
    proof (cases "currentSection st")
      case None
      with True \<open>\<not> n_group node\<close> show ?thesis
        by (simp add: walk_node_list_none assigned_by_def foldl_push_fields upt_conv_Cons)
    next
      case (Some cur)
      with True \<open>\<not> n_group node\<close> show ?thesis
        by (simp add: walk_node_list_some assigned_by_def foldl_push_fields)
    qed
  qed
qed

lemma nextSectionId_step: "nextSectionId st \<le> nextSectionId (walk_node w st node)"
  by (cases "n_group node"; cases "n_list node"; cases "currentSection st")
     (simp_all add: walk_node_cases foldl_push_fields)

lemma nextSectionId_walk: "nextSectionId st \<le> nextSectionId (walk w st nodes)"
proof (induction nodes arbitrary: st)
  case Nil show ?case by (simp add: walk_def)
next
  case (Cons n ns)
  have "nextSectionId st \<le> nextSectionId (walk_node w st n)" by (rule nextSectionId_step)
  also have "\<dots> \<le> nextSectionId (walk w (walk_node w st n) ns)" by (rule Cons.IH)
  finally show ?case by (simp add: walk_def)
qed

lemma assigned_ids:
  "map s_id (assignedSections w st nodes) = [nextSectionId st ..< nextSectionId (walk w st nodes)]"
proof (induction nodes arbitrary: st)
  case Nil show ?case by (simp add: walk_def)
next
  case (Cons n ns)
  have "[nextSectionId st ..< nextSectionId (walk w (walk_node w st n) ns)]
        = [nextSectionId st ..< nextSectionId (walk_node w st n)]
          @ [nextSectionId (walk_node w st n) ..< nextSectionId (walk w (walk_node w st n) ns)]"
    using nextSectionId_step [of st w n] nextSectionId_walk [of "walk_node w st n" w ns]
    by (metis le_Suc_ex upt_add_eq_append)
  then show ?case using Cons.IH [of "walk_node w st n"]
    by (simp add: assigned_ids_step walk_def)
qed

subsection \<open>The invariant\<close>

lemma sorted_map_const: "\<forall>x\<in>set xs. f x = (c::nat) \<Longrightarrow> sorted (map f xs)"
  by (induction xs) auto

lemma walker_invD:
  assumes "walker_inv st"
  shows "map l_id (lessons st) = [1 ..< nextLessonId st]" and "1 \<le> nextLessonId st"
    and "1001 \<le> nextSectionId st" and "sorted (map sectionId (lessons st))"
    and "\<forall>a\<in>set (lessons st). \<forall>b\<in>set (lessons st). sectionId a = sectionId b \<longrightarrow>
            sectionTitle a = sectionTitle b \<and> sectionDuration a = sectionDuration b"
    and "\<forall>l\<in>set (lessons st). 1001 \<le> sectionId l \<and> sectionId l < nextSectionId st"
    and "currentSection st = None \<Longrightarrow> lessons st = []"
    and "currentSection st = Some cur \<Longrightarrow>
           1001 \<le> s_id cur \<and> s_id cur < nextSectionId st
           \<and> (\<forall>l\<in>set (lessons st). sectionId l \<le> s_id cur
                 \<and> (sectionId l = s_id cur \<longrightarrow>
                       sectionTitle l = s_title cur \<and> sectionDuration l = s_duration cur))"
proof -
  have c: "case currentSection st of None \<Rightarrow> lessons st = []
          | Some cur \<Rightarrow>
              1001 \<le> s_id cur \<and> s_id cur < nextSectionId st
              \<and> (\<forall>l\<in>set (lessons st). sectionId l \<le> s_id cur
                    \<and> (sectionId l = s_id cur \<longrightarrow>
                          sectionTitle l = s_title cur \<and> sectionDuration l = s_duration cur))"
    using assms unfolding walker_inv_def by blast
  show "currentSection st = None \<Longrightarrow> lessons st = []"
    using c by simp
  show "currentSection st = Some cur \<Longrightarrow>
           1001 \<le> s_id cur \<and> s_id cur < nextSectionId st
           \<and> (\<forall>l\<in>set (lessons st). sectionId l \<le> s_id cur
                 \<and> (sectionId l = s_id cur \<longrightarrow>
                       sectionTitle l = s_title cur \<and> sectionDuration l = s_duration cur))"
    using c by simp
qed (use assms in \<open>unfold walker_inv_def, blast\<close>)+

lemma walker_invI:
  assumes "map l_id (lessons st) = [1 ..< nextLessonId st]" and "1 \<le> nextLessonId st"
    and "1001 \<le> nextSectionId st" and "sorted (map sectionId (lessons st))"
    and "\<forall>a\<in>set (lessons st). \<forall>b\<in>set (lessons st). sectionId a = sectionId b \<longrightarrow>
            sectionTitle a = sectionTitle b \<and> sectionDuration a = sectionDuration b"
    and "\<forall>l\<in>set (lessons st). 1001 \<le> sectionId l \<and> sectionId l < nextSectionId st"
    and "case currentSection st of None \<Rightarrow> lessons st = []
          | Some cur \<Rightarrow>
              1001 \<le> s_id cur \<and> s_id cur < nextSectionId st
              \<and> (\<forall>l\<in>set (lessons st). sectionId l \<le> s_id cur
                    \<and> (sectionId l = s_id cur \<longrightarrow>
                          sectionTitle l = s_title cur \<and> sectionDuration l = s_duration cur))"
  shows "walker_inv st"
  unfolding walker_inv_def by (intro conjI assms)

lemma walker_inv_push:
  assumes inv: "walker_inv st" and cur: "currentSection st = Some cur"
  shows "walker_inv (foldl (push_lesson w cur) st its)"
proof -
  obtain new where new:
      "lessons (foldl (push_lesson w cur) st its) = lessons st @ new"
      "map l_id new = [nextLessonId st ..< nextLessonId st + length its]"
      "\<forall>l\<in>set new. sectionId l = s_id cur \<and> sectionTitle l = s_title cur
             \<and> sectionDuration l = s_duration cur"
    using foldl_push_lessons by blast
  let ?st' = "foldl (push_lesson w cur) st its"
  have f: "nextSectionId ?st' = nextSectionId st" "currentSection ?st' = Some cur"
      "nextLessonId ?st' = nextLessonId st + length its"
    using cur by (simp_all add: foldl_push_fields)
  note old = walker_invD [OF inv]
  have c: "1001 \<le> s_id cur" "s_id cur < nextSectionId st"
    "\<forall>l\<in>set (lessons st). sectionId l \<le> s_id cur
                 \<and> (sectionId l = s_id cur \<longrightarrow>
                       sectionTitle l = s_title cur \<and> sectionDuration l = s_duration cur)"
    using old(8) [OF cur] by blast+
  show ?thesis
  proof (rule walker_invI)
    show "map l_id (lessons ?st') = [1 ..< nextLessonId ?st']"
      using old(1) new(1,2) f(3) upt_add_eq_append [OF old(2), of "length its"] by simp
    show "1 \<le> nextLessonId ?st'" using old(2) f(3) by simp
    show "1001 \<le> nextSectionId ?st'" using old(3) f(1) by simp
    show "sorted (map sectionId (lessons ?st'))"
    proof -
      have "sorted (map sectionId new)"
        by (rule sorted_map_const [where c = "s_id cur"]) (use new(3) in blast)
      moreover have "\<forall>x\<in>set (lessons st). \<forall>y\<in>set new. sectionId x \<le> sectionId y"
        using c(3) new(3) by simp
      ultimately show ?thesis using old(4) by (simp add: new(1) sorted_append)
    qed
    show "\<forall>a\<in>set (lessons ?st'). \<forall>b\<in>set (lessons ?st'). sectionId a = sectionId b \<longrightarrow>
            sectionTitle a = sectionTitle b \<and> sectionDuration a = sectionDuration b"
    proof (intro ballI impI)
      fix a b
      assume a: "a \<in> set (lessons ?st')" and b: "b \<in> set (lessons ?st')"
        and e: "sectionId a = sectionId b"
      have k: "\<And>x. x \<in> set (lessons ?st') \<Longrightarrow> sectionId x = s_id cur \<Longrightarrow>
                 sectionTitle x = s_title cur \<and> sectionDuration x = s_duration cur"
        unfolding new(1) set_append Un_iff using c(3) new(3) by blast
      show "sectionTitle a = sectionTitle b \<and> sectionDuration a = sectionDuration b"
      proof (cases "sectionId a = s_id cur")
        case True
        then show ?thesis using k [OF a] k [OF b] e by simp
      next
        case False
        then have "a \<notin> set new" "b \<notin> set new"
          using e new(3) by auto
        then have "a \<in> set (lessons st)" "b \<in> set (lessons st)"
          using a b by (simp_all add: new(1))
        then show ?thesis using old(5) e by blast
      qed
    qed
    show "\<forall>l\<in>set (lessons ?st'). 1001 \<le> sectionId l \<and> sectionId l < nextSectionId ?st'"
      using old(6) c(1,2) new(3) by (auto simp: new(1) f(1))
    show "case currentSection ?st' of None \<Rightarrow> lessons ?st' = []
          | Some cur \<Rightarrow>
              1001 \<le> s_id cur \<and> s_id cur < nextSectionId ?st'
              \<and> (\<forall>l\<in>set (lessons ?st'). sectionId l \<le> s_id cur
                    \<and> (sectionId l = s_id cur \<longrightarrow>
                          sectionTitle l = s_title cur \<and> sectionDuration l = s_duration cur))"
      using c new(3) by (auto simp: new(1) f(1,2))
  qed
qed

lemma walker_inv_fresh:
  assumes inv: "walker_inv st" and e: "lessons st' = lessons st"
    "nextLessonId st' = nextLessonId st" "nextSectionId st' = nextSectionId st + 1"
    "currentSection st' = Some cur" "s_id cur = nextSectionId st"
  shows "walker_inv st'"
proof (rule walker_invI)
  note old = walker_invD [OF inv]
  show "map l_id (lessons st') = [1 ..< nextLessonId st']" using old(1) e by simp
  show "1 \<le> nextLessonId st'" using old(2) e by simp
  show "1001 \<le> nextSectionId st'" using old(3) e by simp
  show "sorted (map sectionId (lessons st'))" using old(4) e by simp
  show "\<forall>a\<in>set (lessons st'). \<forall>b\<in>set (lessons st'). sectionId a = sectionId b \<longrightarrow>
            sectionTitle a = sectionTitle b \<and> sectionDuration a = sectionDuration b"
    unfolding e(1) by (rule old(5))
  have lt: "\<forall>l\<in>set (lessons st). 1001 \<le> sectionId l \<and> sectionId l < nextSectionId st"
    by (rule old(6))
  show "\<forall>l\<in>set (lessons st'). 1001 \<le> sectionId l \<and> sectionId l < nextSectionId st'"
    unfolding e(1,3) using lt by (simp add: less_Suc_eq)
  show "case currentSection st' of None \<Rightarrow> lessons st' = []
          | Some cur \<Rightarrow>
              1001 \<le> s_id cur \<and> s_id cur < nextSectionId st'
              \<and> (\<forall>l\<in>set (lessons st'). sectionId l \<le> s_id cur
                    \<and> (sectionId l = s_id cur \<longrightarrow>
                          sectionTitle l = s_title cur \<and> sectionDuration l = s_duration cur))"
    unfolding e option.case using lt old(3) by force
qed

lemma walker_inv_step:
  assumes inv: "walker_inv st"
  shows "walker_inv (walk_node w st node)"
proof (cases "n_group node")
  case True
  have "walker_inv (st \<lparr> currentSection :=
            Some \<lparr> s_id = nextSectionId st, s_title = cleanText (n_h3 node),
                   s_duration = extractMinutes (n_duration node) \<rparr>,
          nextSectionId := nextSectionId st + 1 \<rparr>)"
    by (rule walker_inv_fresh [OF inv, where cur = "\<lparr> s_id = nextSectionId st,
          s_title = cleanText (n_h3 node), s_duration = extractMinutes (n_duration node) \<rparr>"])
       simp_all
  with True show ?thesis by (simp add: walk_node_group)
next
  case False
  show ?thesis
  proof (cases "n_list node")
    case False
    with \<open>\<not> n_group node\<close> inv show ?thesis by (simp add: walk_node_skip)
  next
    case True
    show ?thesis
    proof (cases "currentSection st")
      case None
      let ?cur = "\<lparr> s_id = nextSectionId st, s_title = [], s_duration = [] \<rparr>"
      let ?st1 = "st \<lparr> currentSection := Some ?cur, nextSectionId := nextSectionId st + 1 \<rparr>"
      have "walker_inv ?st1"
        by (rule walker_inv_fresh [OF inv, where cur = ?cur]) simp_all
      moreover have "currentSection ?st1 = Some ?cur" by simp
      ultimately have "walker_inv (foldl (push_lesson w ?cur) ?st1 (n_items node))"
        by (rule walker_inv_push)
      with None True \<open>\<not> n_group node\<close> show ?thesis by (simp add: walk_node_list_none)
    next
      case (Some cur)
      with inv have "walker_inv (foldl (push_lesson w cur) st (n_items node))"
        by (rule walker_inv_push)
      with Some True \<open>\<not> n_group node\<close> show ?thesis by (simp add: walk_node_list_some)
    qed
  qed
qed

lemma walker_inv_walk: "walker_inv st \<Longrightarrow> walker_inv (walk w st nodes)"
  by (induction nodes arbitrary: st) (simp_all add: walk_def walker_inv_step)

lemma walker_inv_init: "walker_inv walker_init"
  by (simp add: walker_inv_def walker_init_def)

lemma walker_inv_final: "walker_inv (walk w walker_init nodes)"
  by (simp add: walker_inv_walk walker_inv_init)

subsection \<open>Sections assigned\<close>

lemma currentSection_step:
  "currentSection (walk_node w st node) =
     (if n_group node then
        Some \<lparr> s_id = nextSectionId st, s_title = cleanText (n_h3 node),
               s_duration = extractMinutes (n_duration node) \<rparr>
      else if n_list node \<and> currentSection st = None then
        Some \<lparr> s_id = nextSectionId st, s_title = [], s_duration = [] \<rparr>
      else currentSection st)"
  by (cases "n_group node"; cases "n_list node"; cases "currentSection st")
     (simp_all add: walk_node_cases foldl_push_fields)

lemma nextSectionId_step_eq:
  "nextSectionId (walk_node w st node) =
     (if n_group node \<or> (n_list node \<and> currentSection st = None) then nextSectionId st + 1
      else nextSectionId st)"
  by (cases "n_group node"; cases "n_list node"; cases "currentSection st")
     (simp_all add: walk_node_cases foldl_push_fields)

lemma assigned_by_length:
  "length (assigned_by st (walk_node w st node)) =
     (if n_group node \<or> (n_list node \<and> currentSection st = None) then 1 else 0)"
  by (simp add: assigned_by_def nextSectionId_step_eq currentSection_step)

lemma assigned_length:
  "length (assignedSections w st nodes) =
     length (filter n_group nodes)
     + (if currentSection st = None \<and> (\<exists>n\<in>set (takeWhile (\<lambda>n. \<not> n_group n) nodes). n_list n)
        then 1 else 0)"
proof (induction nodes arbitrary: st)
  case Nil
  show ?case by simp
next
  case (Cons n ns)
  show ?case
    by (cases "n_group n"; cases "n_list n"; cases "currentSection st")
       (auto simp: Cons.IH assigned_by_length currentSection_step)
qed

text \<open>The nodes before the first header.\<close>

lemma pre_header_step:
  assumes "\<not> n_group node"
    and "\<forall>l\<in>set (lessons st). sectionId l = k \<and> sectionTitle l = [] \<and> sectionDuration l = []"
    and "case currentSection st of None \<Rightarrow> nextSectionId st = k
         | Some cur \<Rightarrow> cur = \<lparr> s_id = k, s_title = [], s_duration = [] \<rparr>"
  shows "(\<forall>l\<in>set (lessons (walk_node w st node)).
            sectionId l = k \<and> sectionTitle l = [] \<and> sectionDuration l = [])
         \<and> (case currentSection (walk_node w st node) of None \<Rightarrow> nextSectionId (walk_node w st node) = k
            | Some cur \<Rightarrow> cur = \<lparr> s_id = k, s_title = [], s_duration = [] \<rparr>)"
proof (cases "n_list node")
  case False
  then have e: "walk_node w st node = st" using assms(1) by (simp add: walk_node_skip)
  show ?thesis unfolding e using assms(2,3) by blast
next
  case True
  let ?cur = "\<lparr> s_id = k, s_title = [], s_duration = [] \<rparr>"
  show ?thesis
  proof (cases "currentSection st")
    case None
    then have k: "nextSectionId st = k" using assms(3) by simp
    let ?st1 = "st \<lparr> currentSection := Some ?cur, nextSectionId := nextSectionId st + 1 \<rparr>"
    have w: "walk_node w st node = foldl (push_lesson w ?cur) ?st1 (n_items node)"
      using None True assms(1) k by (simp add: walk_node_list_none)
    obtain new where new: "lessons (foldl (push_lesson w ?cur) ?st1 (n_items node)) = lessons ?st1 @ new"
      "\<forall>l\<in>set new. sectionId l = s_id ?cur \<and> sectionTitle l = s_title ?cur
             \<and> sectionDuration l = s_duration ?cur"
      using foldl_push_lessons [of w ?cur ?st1 "n_items node"] by blast
    show ?thesis
      unfolding w using new assms(2) by (auto simp: foldl_push_fields)
  next
    case (Some cur)
    then have c: "cur = ?cur" using assms(3) by simp
    have w: "walk_node w st node = foldl (push_lesson w ?cur) st (n_items node)"
      using Some True assms(1) c by (simp add: walk_node_list_some)
    obtain new where new: "lessons (foldl (push_lesson w ?cur) st (n_items node)) = lessons st @ new"
      "\<forall>l\<in>set new. sectionId l = s_id ?cur \<and> sectionTitle l = s_title ?cur
             \<and> sectionDuration l = s_duration ?cur"
      using foldl_push_lessons [of w ?cur st "n_items node"] by blast
    show ?thesis
      unfolding w using new assms(2) Some c by (auto simp: foldl_push_fields)
  qed
qed

lemma pre_header_walk:
  assumes "\<forall>n\<in>set nodes. \<not> n_group n"
    and "\<forall>l\<in>set (lessons st). sectionId l = k \<and> sectionTitle l = [] \<and> sectionDuration l = []"
    and "case currentSection st of None \<Rightarrow> nextSectionId st = k
         | Some cur \<Rightarrow> cur = \<lparr> s_id = k, s_title = [], s_duration = [] \<rparr>"
  shows "\<forall>l\<in>set (lessons (walk w st nodes)).
            sectionId l = k \<and> sectionTitle l = [] \<and> sectionDuration l = []"
  using assms
proof (induction nodes arbitrary: st)
  case Nil
  then show ?case by (simp add: walk_def)
next
  case (Cons n ns)
  have n: "\<not> n_group n" using Cons.prems(1) by simp
  note s = pre_header_step [OF n Cons.prems(2) Cons.prems(3), of w]
  have "\<forall>l\<in>set (lessons (walk w (walk_node w st n) ns)).
            sectionId l = k \<and> sectionTitle l = [] \<and> sectionDuration l = []"
    by (rule Cons.IH) (use Cons.prems(1) s in simp_all)
  then show ?case by (simp add: walk_def)
qed

lemma lessons_step: "\<exists>more. lessons (walk_node w st node) = lessons st @ more"
proof (cases "n_group node")
  case True
  then show ?thesis by (simp add: walk_node_group)
next
  case False
  show ?thesis
  proof (cases "n_list node")
    case False
    with \<open>\<not> n_group node\<close> show ?thesis by (simp add: walk_node_skip)
  next
    case True
    show ?thesis
    proof (cases "currentSection st")
      case None
      show ?thesis
        using foldl_push_lessons [of w "\<lparr> s_id = nextSectionId st, s_title = [], s_duration = [] \<rparr>"
            "st \<lparr> currentSection := Some \<lparr> s_id = nextSectionId st, s_title = [], s_duration = [] \<rparr>,
                  nextSectionId := nextSectionId st + 1 \<rparr>" "n_items node"]
          None True \<open>\<not> n_group node\<close>
        by (auto simp: walk_node_list_none)
    next
      case (Some cur)
      show ?thesis
        using foldl_push_lessons [of w cur st "n_items node"] Some True \<open>\<not> n_group node\<close>
        by (auto simp: walk_node_list_some)
    qed
  qed
qed

lemma lessons_walk: "\<exists>more. lessons (walk w st nodes) = lessons st @ more"
proof (induction nodes arbitrary: st)
  case Nil
  show ?case by (simp add: walk_def)
next
  case (Cons n ns)
  obtain m1 where m1: "lessons (walk_node w st n) = lessons st @ m1"
    using lessons_step by blast
  obtain m2 where m2: "lessons (walk w (walk_node w st n) ns) = lessons (walk_node w st n) @ m2"
    using Cons.IH by blast
  have "lessons (walk w st (n # ns)) = lessons st @ (m1 @ m2)"
    using m1 m2 by (simp add: walk_def)
  then show ?case by blast
qed

lemma walk_append: "walk w st (xs @ ys) = walk w (walk w st xs) ys"
  by (simp add: walk_def)

subsection \<open>The example page\<close>

lemmas eval_defs =
  cleanText_def trim_def toLowerCase_def char_defs Let_def
  re_hours_def re_minutes_def re_mins_def re_number_def digits_spaces_lit_def word_end_def
  Number_digits digits_value_def digit_val_def

lemma floor_numeral_div [simp]:
  "\<lfloor>(numeral a :: rat) / numeral b\<rfloor> = numeral a div numeral b"
  using floor_divide_of_int_eq [of "numeral a" "numeral b", where ?'a = rat] by simp

lemma sample_duration_1: "getDurationFromTimeRange (Some (js ''00:00:00 - 00:05:00'')) = (js ''5'')"
  by (simp add: getDurationFromTimeRange_def timestampToSeconds_def eval_defs
      isNaN_def js_sub_def js_neg_def Math_round_def)

lemma sample_duration_2: "getDurationFromTimeRange (Some (js ''00:05:00 - 00:12:00'')) = (js ''7'')"
  by (simp add: getDurationFromTimeRange_def timestampToSeconds_def eval_defs
      isNaN_def js_sub_def js_neg_def Math_round_def)

lemma duration_of_empty: "getDurationFromTimeRange (Some []) = []"
  by (simp add: getDurationFromTimeRange_def eval_defs)

lemma sample_minutes: "extractMinutes (Some (js ''10 minutes'')) = (js ''10'')"
  by (simp add: extractMinutes_def eval_defs)

lemma minutes_of_missing: "extractMinutes None = []"
  by (simp add: extractMinutes_def eval_defs)

lemma sample_lessons:
  "extractLessons sample_window =
     [\<lparr> l_id = 1, l_title = (js ''Welcome''), l_description = [], l_duration = [], timeRange = [],
        lessonUrl = (js ''https://frontendmasters.com/w/''), sectionId = 1001, sectionTitle = [],
        sectionDuration = [] \<rparr>,
      \<lparr> l_id = 2, l_title = (js ''Setup''), l_description = (js ''Install''), l_duration = (js ''5''),
        timeRange = (js ''00:00:00 - 00:05:00''), lessonUrl = [], sectionId = 1002,
        sectionTitle = (js ''Introduction''), sectionDuration = (js ''10'') \<rparr>,
      \<lparr> l_id = 3, l_title = [], l_description = [], l_duration = (js ''7''),
        timeRange = (js ''00:05:00 - 00:12:00''), lessonUrl = (js ''https://frontendmasters.com/t/''),
        sectionId = 1002, sectionTitle = (js ''Introduction''), sectionDuration = (js ''10'') \<rparr>,
      \<lparr> l_id = 4, l_title = [], l_description = (js ''Markup''), l_duration = [], timeRange = [],
        lessonUrl = [], sectionId = 1004, sectionTitle = (js ''JSX''), sectionDuration = [] \<rparr>]"
  by (simp add: extractLessons_def walk_def walk_node_def push_lesson_def walker_init_def
      sample_window_def sample_document_def sample_sequence_def
      extractTimeRange_def extractLessonUrl_def toAbsoluteUrl_def Let_def
      sample_duration_1 [unfolded js_def list.map code_def, simplified]
      sample_duration_2 [unfolded js_def list.map code_def, simplified]
      sample_minutes [unfolded js_def list.map code_def, simplified]
      duration_of_empty minutes_of_missing
      cleanText_def trim_def char_defs)

lemma sample_headers: "length (filter n_group sample_sequence) = 3"
  by (simp add: sample_sequence_def)

lemma sample_pre_header:
  "\<exists>n\<in>set (takeWhile (\<lambda>n. \<not> n_group n) sample_sequence). n_list n"
  by (simp add: sample_sequence_def)

subsection \<open>The ids\<close>

lemma lesson_ids:
  "map l_id (extractLessons w) = [1 ..< Suc (length (extractLessons w))]"
proof -
  let ?fin = "walk w walker_init (d_sequence (w_document w))"
  note d = walker_invD [OF walker_inv_final [of w "d_sequence (w_document w)"]]
  have "length (map l_id (lessons ?fin)) = nextLessonId ?fin - 1" by (simp add: d(1))
  then have "nextLessonId ?fin = Suc (length (lessons ?fin))" using d(2) by simp
  then show ?thesis using d(1) by (simp add: extractLessons_def)
qed

lemma assigned_ids_init:
  "map s_id (assignedSections w walker_init nodes)
     = [1001 ..< 1001 + length (assignedSections w walker_init nodes)]"
proof -
  have ids: "map s_id (assignedSections w walker_init nodes)
      = [1001 ..< nextSectionId (walk w walker_init nodes)]"
    using assigned_ids [of w walker_init nodes] by (simp add: walker_init_def)
  have "length (assignedSections w walker_init nodes)
      = nextSectionId (walk w walker_init nodes) - 1001"
    using arg_cong [OF ids, of length] by simp
  then show ?thesis
    using ids walker_invD(3) [OF walker_inv_final [of w nodes]] by simp
qed

lemma assigned_length_init:
  "length (assignedSections w walker_init nodes)
     = length (filter n_group nodes)
       + (if \<exists>n\<in>set (takeWhile (\<lambda>n. \<not> n_group n) nodes). n_list n then 1 else 0)"
  using assigned_length [of w walker_init nodes] by (simp add: walker_init_def)

lemma pre_header_lessons:
  "\<forall>l\<in>set (lessons (walk w walker_init (takeWhile (\<lambda>n. \<not> n_group n) nodes))).
      sectionId l = 1001 \<and> sectionTitle l = [] \<and> sectionDuration l = []"
proof (rule pre_header_walk)
  show "\<forall>n\<in>set (takeWhile (\<lambda>n. \<not> n_group n) nodes). \<not> n_group n"
    using set_takeWhileD by fastforce
qed (simp_all add: walker_init_def)

lemma pre_header_prefix:
  "\<exists>later. lessons (walk w walker_init nodes)
      = lessons (walk w walker_init (takeWhile (\<lambda>n. \<not> n_group n) nodes)) @ later"
proof -
  have "walk w walker_init nodes
      = walk w (walk w walker_init (takeWhile (\<lambda>n. \<not> n_group n) nodes))
          (dropWhile (\<lambda>n. \<not> n_group n) nodes)"
    using walk_append [of w walker_init "takeWhile (\<lambda>n. \<not> n_group n) nodes"
        "dropWhile (\<lambda>n. \<not> n_group n) nodes"] by simp
  then show ?thesis
    using lessons_walk [of w "walk w walker_init (takeWhile (\<lambda>n. \<not> n_group n) nodes)"]
    by simp
qed

lemma lesson_sections_assigned:
  "\<forall>l\<in>set (lessons (walk w walker_init nodes)).
      sectionId l \<in> s_id ` set (assignedSections w walker_init nodes)"
proof
  fix l assume "l \<in> set (lessons (walk w walker_init nodes))"
  then have "1001 \<le> sectionId l \<and> sectionId l < nextSectionId (walk w walker_init nodes)"
    using walker_invD(6) [OF walker_inv_final [of w nodes]] by simp
  then have "sectionId l \<in> set [1001 ..< nextSectionId (walk w walker_init nodes)]" by simp
  moreover have "map s_id (assignedSections w walker_init nodes)
      = [1001 ..< nextSectionId (walk w walker_init nodes)]"
    using assigned_ids [of w walker_init nodes] by (simp add: walker_init_def)
  ultimately show "sectionId l \<in> s_id ` set (assignedSections w walker_init nodes)"
    by (metis set_map)
qed

lemma push_lesson_item:
  "map lesson_fields (lessons (push_lesson w cur st it))
     = map lesson_fields (lessons st) @ [item_fields w it]"
  by (simp add: push_lesson_def Let_def lesson_fields_def item_fields_def)

lemma foldl_push_items:
  "map lesson_fields (lessons (foldl (push_lesson w cur) st its))
     = map lesson_fields (lessons st) @ map (item_fields w) its"
  by (induction its arbitrary: st) (simp_all add: push_lesson_item)

lemma walk_node_items:
  "map lesson_fields (lessons (walk_node w st node))
     = map lesson_fields (lessons st)
       @ map (item_fields w) (if \<not> n_group node \<and> n_list node then n_items node else [])"
  by (cases "n_group node"; cases "n_list node"; cases "currentSection st")
     (simp_all add: walk_node_cases foldl_push_items)

lemma walk_items:
  "map lesson_fields (lessons (walk w st nodes))
     = map lesson_fields (lessons st)
       @ map (item_fields w) (concat (map n_items (filter (\<lambda>n. \<not> n_group n \<and> n_list n) nodes)))"
proof (induction nodes arbitrary: st)
  case Nil
  show ?case by (simp add: walk_def)
next
  case (Cons n ns)
  have "walk w st (n # ns) = walk w (walk_node w st n) ns" by (simp add: walk_def)
  then show ?case by (simp add: Cons.IH walk_node_items)
qed

lemma lessons_of_items:
  "map (\<lambda>l. (l_title l, l_description l, timeRange l, l_duration l, lessonUrl l))
       (extractLessons w)
     = map (\<lambda>it. (cleanText (map_option a_text (li_title it)), cleanText (li_description it),
                  extractTimeRange it, getDurationFromTimeRange (Some (extractTimeRange it)),
                  extractLessonUrl w it))
         (concat (map n_items
            (filter (\<lambda>n. \<not> n_group n \<and> n_list n) (d_sequence (w_document w)))))"
  using walk_items [of w walker_init "d_sequence (w_document w)"]
  by (simp add: extractLessons_def walker_init_def lesson_fields_def [abs_def]
      item_fields_def [abs_def])

text \<open>
  Claim C1. Whatever the sequence of header and list nodes, the lesson ids of
  \<open>extractLessons\<close> are 1, 2, 3, ... in the order of the lessons, and the section ids
  assigned are 1001, 1002, ... in the order of assignment. One section is assigned for
  every header node and one more, with empty title and duration, if a lesson list comes
  before the first header; the lessons of all lists before the first header carry that
  section, and every lesson carries an assigned section id. The lessons are the lesson
  items of the list nodes, one lesson for each item, in the order of the nodes and, in a
  node, of its items: the lesson with id \<open>i\<close> is made from the \<open>i\<close>-th item met.
\<close>

theorem walker_ids_contiguous:
  "map l_id (extractLessons w) = [1 ..< Suc (length (extractLessons w))]
   \<and> map (\<lambda>l. (l_title l, l_description l, timeRange l, l_duration l, lessonUrl l))
         (extractLessons w)
       = map (\<lambda>it. (cleanText (map_option a_text (li_title it)), cleanText (li_description it),
                    extractTimeRange it, getDurationFromTimeRange (Some (extractTimeRange it)),
                    extractLessonUrl w it))
           (concat (map n_items
              (filter (\<lambda>n. \<not> n_group n \<and> n_list n) (d_sequence (w_document w)))))
   \<and> map s_id (assignedSections w walker_init (d_sequence (w_document w)))
       = [1001 ..< 1001 + length (assignedSections w walker_init (d_sequence (w_document w)))]
   \<and> length (assignedSections w walker_init (d_sequence (w_document w)))
       = length (filter n_group (d_sequence (w_document w)))
         + (if \<exists>n\<in>set (takeWhile (\<lambda>n. \<not> n_group n) (d_sequence (w_document w))). n_list n
            then 1 else 0)
   \<and> (\<forall>l\<in>set (lessons (walk w walker_init
               (takeWhile (\<lambda>n. \<not> n_group n) (d_sequence (w_document w))))).
         sectionId l = 1001 \<and> sectionTitle l = [] \<and> sectionDuration l = [])
   \<and> (\<exists>later. extractLessons w
         = lessons (walk w walker_init
             (takeWhile (\<lambda>n. \<not> n_group n) (d_sequence (w_document w)))) @ later)
   \<and> (\<forall>l\<in>set (extractLessons w).
         sectionId l \<in> s_id ` set (assignedSections w walker_init (d_sequence (w_document w))))"
proof -
  have rest: "map s_id (assignedSections w walker_init (d_sequence (w_document w)))
       = [1001 ..< 1001 + length (assignedSections w walker_init (d_sequence (w_document w)))]
   \<and> length (assignedSections w walker_init (d_sequence (w_document w)))
       = length (filter n_group (d_sequence (w_document w)))
         + (if \<exists>n\<in>set (takeWhile (\<lambda>n. \<not> n_group n) (d_sequence (w_document w))). n_list n
            then 1 else 0)
   \<and> (\<forall>l\<in>set (lessons (walk w walker_init
               (takeWhile (\<lambda>n. \<not> n_group n) (d_sequence (w_document w))))).
         sectionId l = 1001 \<and> sectionTitle l = [] \<and> sectionDuration l = [])
   \<and> (\<exists>later. extractLessons w
         = lessons (walk w walker_init
             (takeWhile (\<lambda>n. \<not> n_group n) (d_sequence (w_document w)))) @ later)
   \<and> (\<forall>l\<in>set (extractLessons w).
         sectionId l \<in> s_id ` set (assignedSections w walker_init (d_sequence (w_document w))))"
    using assigned_ids_init [of w "d_sequence (w_document w)"]
      assigned_length_init [of w "d_sequence (w_document w)"]
      pre_header_lessons [of w "d_sequence (w_document w)"]
      pre_header_prefix [of w "d_sequence (w_document w)"]
      lesson_sections_assigned [of w "d_sequence (w_document w)"]
    unfolding extractLessons_def by blast
  show ?thesis
    by (intro conjI lesson_ids lessons_of_items) (use rest in blast)+
qed

theorem walker_ids_contiguous_witness:
  "map l_id (extractLessons sample_window) = [1, 2, 3, 4]
   \<and> map s_id (assignedSections sample_window walker_init sample_sequence)
       = [1001, 1002, 1003, 1004]
   \<and> sectionId (hd (extractLessons sample_window)) = 1001
   \<and> map l_title (extractLessons sample_window) = [(js ''Welcome''), (js ''Setup''), [], []]"
proof -
  have s: "d_sequence (w_document sample_window) = sample_sequence"
    by (simp add: sample_window_def sample_document_def)
  have u: "[1001 ..< 1005] = [1001, 1002, 1003, 1004::nat]" "[1 ..< 5] = [1, 2, 3, 4::nat]"
    by (simp_all add: upt_rec)
  show ?thesis
    using walker_ids_contiguous [of sample_window] sample_pre_header
    by (simp add: s sample_headers sample_lessons u)
qed

text \<open>
  Claim C10. In the lessons of \<open>extractLessons\<close> the section ids never decrease along
  the list, which is the order of the lesson ids, and two lessons with the same section
  id carry the same section title and the same section duration.
\<close>

theorem section_snapshot_consistent:
  "sorted (map sectionId (extractLessons w))
   \<and> (\<forall>a\<in>set (extractLessons w). \<forall>b\<in>set (extractLessons w).
         (l_id a \<le> l_id b \<longrightarrow> sectionId a \<le> sectionId b)
         \<and> (sectionId a = sectionId b \<longrightarrow>
              sectionTitle a = sectionTitle b \<and> sectionDuration a = sectionDuration b))"
proof -
  let ?ls = "extractLessons w"
  note d = walker_invD [OF walker_inv_final [of w "d_sequence (w_document w)"]]
  have ex: "?ls = lessons (walk w walker_init (d_sequence (w_document w)))"
    by (simp add: extractLessons_def)
  have s: "sorted (map sectionId ?ls)" using d(4) by (simp add: ex)
  have ids: "\<And>i. i < length ?ls \<Longrightarrow> l_id (?ls ! i) = Suc i"
  proof -
    fix i assume i: "i < length ?ls"
    then have "map l_id ?ls ! i = [1 ..< Suc (length ?ls)] ! i" by (simp only: lesson_ids)
    then show "l_id (?ls ! i) = Suc i" using i by (simp del: upt_Suc)
  qed
  have mono: "\<forall>a\<in>set ?ls. \<forall>b\<in>set ?ls. l_id a \<le> l_id b \<longrightarrow> sectionId a \<le> sectionId b"
  proof (intro ballI impI)
    fix a b assume a: "a \<in> set ?ls" and b: "b \<in> set ?ls" and le: "l_id a \<le> l_id b"
    obtain i where i: "i < length ?ls" "?ls ! i = a" using a by (auto simp: in_set_conv_nth)
    obtain j where j: "j < length ?ls" "?ls ! j = b" using b by (auto simp: in_set_conv_nth)
    have "i \<le> j" using le ids [OF i(1)] ids [OF j(1)] i(2) j(2) by simp
    then have "map sectionId ?ls ! i \<le> map sectionId ?ls ! j"
      using s j(1) by (simp add: sorted_iff_nth_mono)
    then show "sectionId a \<le> sectionId b" using i j by simp
  qed
  have same: "\<forall>a\<in>set ?ls. \<forall>b\<in>set ?ls. sectionId a = sectionId b \<longrightarrow>
              sectionTitle a = sectionTitle b \<and> sectionDuration a = sectionDuration b"
    unfolding ex by (rule d(5))
  show ?thesis using s mono same by blast
qed

theorem section_snapshot_consistent_witness:
  "sectionId (extractLessons sample_window ! 1) = sectionId (extractLessons sample_window ! 2)
   \<and> sectionTitle (extractLessons sample_window ! 1) = (js ''Introduction'')
   \<and> sectionTitle (extractLessons sample_window ! 2) = (js ''Introduction'')
   \<and> l_id (extractLessons sample_window ! 0) \<le> l_id (extractLessons sample_window ! 3)
   \<and> sectionId (extractLessons sample_window ! 0) \<le> sectionId (extractLessons sample_window ! 3)"
  using section_snapshot_consistent [of sample_window] by (simp add: sample_lessons)

subsection \<open>The counts of the payload\<close>

lemma isFinite_Fin [simp]: "isFinite (Fin q)"
  by (simp add: isFinite_def)

lemma sample_slug: "getCourseSlug (w_pathname sample_window) = (js ''react'')"
  by (simp add: getCourseSlug_def sample_window_def char_defs)

lemma sample_title: "courseTitle (extractCourseData (w_document sample_window)) = (js ''Intro to React'')"
  by (simp add: extractCourseData_def sample_window_def sample_document_def
      cleanText_def trim_def char_defs)

text \<open>
  Claim C2. In the payload that \<open>extractCoursePayload\<close> returns, \<open>sectionCount\<close> is
  the number of distinct \<open>sectionId\<close> values among the lessons and \<open>lessonCount\<close> is
  the length of the lesson list, the lessons being those of \<open>extractLessons\<close>. The
  count is at most the number of sections assigned: a section without a lesson took an
  id and is not counted.
\<close>

theorem payload_counts:
  assumes "extractCoursePayload w = Inr r"
  shows "sectionCount (courseData (payload r))
       = Some (card (sectionId ` set (p_lessons (payload r))))
     \<and> lessonCount (courseData (payload r)) = Some (length (p_lessons (payload r)))
     \<and> p_lessons (payload r) = extractLessons w
     \<and> card (sectionId ` set (p_lessons (payload r)))
         \<le> length (assignedSections w walker_init (d_sequence (w_document w)))"
proof -
  have r: "r = \<lparr> slug = getCourseSlug (w_pathname w),
        payload = \<lparr> courseData = extractCourseData (w_document w)
              \<lparr> sectionCount := Some (length (remdups (map sectionId (extractLessons w)))),
                lessonCount := Some (length (extractLessons w)),
                courseUrl := Some (buildCourseUrl w (getCourseSlug (w_pathname w))) \<rparr>,
          p_lessons = extractLessons w \<rparr> \<rparr>"
    using assms by (simp add: extractCoursePayload_def Let_def split: if_splits)
  have c: "length (remdups (map sectionId (extractLessons w)))
           = card (sectionId ` set (extractLessons w))"
    by (simp add: length_remdups_card_conv)
  have "sectionId ` set (extractLessons w)
          \<subseteq> s_id ` set (assignedSections w walker_init (d_sequence (w_document w)))"
    using lesson_sections_assigned [of w "d_sequence (w_document w)"]
    by (auto simp: extractLessons_def)
  then have "card (sectionId ` set (extractLessons w))
          \<le> card (s_id ` set (assignedSections w walker_init (d_sequence (w_document w))))"
    by (intro card_mono) simp_all
  also have "\<dots> \<le> card (set (assignedSections w walker_init (d_sequence (w_document w))))"
    by (rule card_image_le) simp
  also have "\<dots> \<le> length (assignedSections w walker_init (d_sequence (w_document w)))"
    by (rule card_length)
  finally show ?thesis using c by (simp add: r)
qed

theorem payload_counts_witness:
  "\<exists>r. extractCoursePayload sample_window = Inr r
       \<and> sectionCount (courseData (payload r)) = Some 3
       \<and> lessonCount (courseData (payload r)) = Some 4
       \<and> length (assignedSections sample_window walker_init sample_sequence) = 4"
proof -
  obtain r where r: "extractCoursePayload sample_window = Inr r"
    by (simp add: extractCoursePayload_def Let_def sample_slug sample_title js_def)
  have s: "d_sequence (w_document sample_window) = sample_sequence"
    by (simp add: sample_window_def sample_document_def)
  have "length (assignedSections sample_window walker_init sample_sequence) = 4"
    using sample_pre_header by (simp add: assigned_length_init sample_headers)
  then show ?thesis
    using payload_counts [OF r] r by (simp add: sample_lessons s)
qed

section \<open>Properties of the task list\<close>

lemma String_nat: "n < 2 ^ 53 \<Longrightarrow> String (Fin (of_nat n)) = digits_of (int n)"
  using String_int [of "int n"] by simp

lemma build_task_received:
  "build_task (Some \<lparr> pl_id = Num (Fin (of_nat (l_id l))), pl_title = Str (l_title l),
                       pl_duration = Str (l_duration l), pl_lessonUrl = Str (lessonUrl l) \<rparr>)
     = \<lparr> content = String (Fin (of_nat (l_id l))) @ js ''. '' @ l_title l @ js '' []'',
         description = js ''- Duration: '' @ l_duration l @ js '' min'' @ [10]
                       @ js ''- Url: '' @ lessonUrl l \<rparr>"
  by (simp add: build_task_def Let_def truthy_def String_val_def)

text \<open>
  Claim C9.  \<open>buildV2Payload\<close> is a projection of the payload it is given: the
  task list is the image, in order, of the list of lessons (the empty list when the payload
  or its list is missing), so there is one task for each lesson.  The content of a task is
  the id, \<open>". "\<close>, the title and \<open>" []"\<close>; its description is
  \<open>"- Duration: "\<close>, the duration, \<open>" min"\<close>, a line feed,
  \<open>"- Url: "\<close> and the url; a field that is missing is rendered as the
  empty string (an id when it is \<open>undefined\<close>, the three others when they are
  falsy).  On the payload that the content script produces, the fields are those of the
  lessons, the id being written in decimal.
\<close>

theorem buildV2Payload_projection:
  "buildV2Payload p =
     map (\<lambda>lesson.
            \<lparr> content =
                (case lesson of None \<Rightarrow> []
                 | Some l \<Rightarrow> if pl_id l \<noteq> Undefined then String_val (pl_id l) else [])
                @ js ''. ''
                @ (case lesson of None \<Rightarrow> []
                   | Some l \<Rightarrow> if truthy (pl_title l) then String_val (pl_title l) else [])
                @ js '' []'',
              description =
                js ''- Duration: ''
                @ (case lesson of None \<Rightarrow> []
                   | Some l \<Rightarrow> if truthy (pl_duration l) then String_val (pl_duration l) else [])
                @ js '' min'' @ [10] @ js ''- Url: ''
                @ (case lesson of None \<Rightarrow> []
                   | Some l \<Rightarrow>
                       if truthy (pl_lessonUrl l) then String_val (pl_lessonUrl l) else []) \<rparr>)
       (case p of None \<Rightarrow> []
        | Some pl \<Rightarrow> (case ep_lessons pl of None \<Rightarrow> [] | Some ls \<Rightarrow> ls))
   \<and> build_task (Some \<lparr> pl_id = Undefined, pl_title = Undefined, pl_duration = Undefined,
                          pl_lessonUrl = Undefined \<rparr>)
       = \<lparr> content = js ''.  []'', description = js ''- Duration:  min'' @ [10] @ js ''- Url: '' \<rparr>
   \<and> buildV2Payload (Some (received pay))
       = map (\<lambda>l. \<lparr> content = String (Fin (of_nat (l_id l))) @ js ''. '' @ l_title l @ js '' []'',
                     description = js ''- Duration: '' @ l_duration l @ js '' min'' @ [10]
                                   @ js ''- Url: '' @ lessonUrl l \<rparr>)
           (p_lessons pay)
   \<and> (\<forall>l\<in>set (p_lessons pay). l_id l < 2 ^ 53 \<longrightarrow>
         String (Fin (of_nat (l_id l))) = digits_of (int (l_id l)))"
proof -
  have 1: "buildV2Payload p =
     map (\<lambda>lesson.
            \<lparr> content =
                (case lesson of None \<Rightarrow> []
                 | Some l \<Rightarrow> if pl_id l \<noteq> Undefined then String_val (pl_id l) else [])
                @ js ''. ''
                @ (case lesson of None \<Rightarrow> []
                   | Some l \<Rightarrow> if truthy (pl_title l) then String_val (pl_title l) else [])
                @ js '' []'',
              description =
                js ''- Duration: ''
                @ (case lesson of None \<Rightarrow> []
                   | Some l \<Rightarrow> if truthy (pl_duration l) then String_val (pl_duration l) else [])
                @ js '' min'' @ [10] @ js ''- Url: ''
                @ (case lesson of None \<Rightarrow> []
                   | Some l \<Rightarrow>
                       if truthy (pl_lessonUrl l) then String_val (pl_lessonUrl l) else []) \<rparr>)
       (case p of None \<Rightarrow> []
        | Some pl \<Rightarrow> (case ep_lessons pl of None \<Rightarrow> [] | Some ls \<Rightarrow> ls))"
    by (simp add: buildV2Payload_def build_task_def [abs_def] Let_def)
  have 2: "build_task (Some \<lparr> pl_id = Undefined, pl_title = Undefined, pl_duration = Undefined,
                          pl_lessonUrl = Undefined \<rparr>)
       = \<lparr> content = js ''.  []'', description = js ''- Duration:  min'' @ [10] @ js ''- Url: '' \<rparr>"
    by (simp add: build_task_def Let_def truthy_def js_def)
  have 3: "buildV2Payload (Some (received pay))
       = map (\<lambda>l. \<lparr> content = String (Fin (of_nat (l_id l))) @ js ''. '' @ l_title l @ js '' []'',
                     description = js ''- Duration: '' @ l_duration l @ js '' min'' @ [10]
                                   @ js ''- Url: '' @ lessonUrl l \<rparr>)
           (p_lessons pay)"
    by (simp add: buildV2Payload_def received_def build_task_received comp_def)
  have 4: "\<forall>l\<in>set (p_lessons pay). l_id l < 2 ^ 53 \<longrightarrow>
         String (Fin (of_nat (l_id l))) = digits_of (int (l_id l))"
    by (simp add: String_nat)
  show ?thesis by (intro conjI 1 2 3 4)
qed

theorem buildV2Payload_projection_witness:
  "map content (buildV2Payload (Some (received \<lparr> courseData = extractCourseData sample_document,
       p_lessons = extractLessons sample_window \<rparr>)))
   = [js ''1. Welcome []'', js ''2. Setup []'', js ''3.  []'', js ''4.  []'']
   \<and> description (buildV2Payload (Some (received \<lparr> courseData = extractCourseData sample_document,
       p_lessons = extractLessons sample_window \<rparr>)) ! 1)
   = js ''- Duration: 5 min'' @ [10] @ js ''- Url: ''"
proof -
  note t = buildV2Payload_projection
    [of None "\<lparr> courseData = extractCourseData sample_document,
       p_lessons = extractLessons sample_window \<rparr>",
     THEN conjunct2, THEN conjunct2, THEN conjunct1]
  show ?thesis
    unfolding t by (simp add: sample_lessons js_def code_def)
qed

section \<open>Properties of the request\<close>



lemma marker_text_missing:
  "isMissingReceiverError (Error (js ''Receiving end does not exist''))"
  by (simp add: isMissingReceiverError_def getErrorMessage_def js_def code_def)





section \<open>Properties of the extraction\<close>



lemma toLowerCase_Nil [simp]: "toLowerCase [] = []"
  by (simp add: toLowerCase_def)









section \<open>Properties of the published date\<close>

text \<open>
  Claim C8.  The three examples of the specification hold, but the shape
  \<open>Month D, YYYY\<close> is accepted with a word that is no month: the name is looked up in
  an object literal, where the word \<open>constructor\<close> finds the function \<open>Object\<close> of the
  prototype, and the text of that function is written in the place of the month.
\<close>

theorem normalizePublishedDate_constructor:
  "normalizePublishedDate (Some (js ''Constructor 3, 2022''))
     = js ''2022-function Object() { [native code] }-03''
   \<and> normalizePublishedDate (Some (js ''March 3, 2022'')) = js ''2022-03-03''
   \<and> normalizePublishedDate (Some (js ''2022-03-03'')) = js ''2022-03-03''
   \<and> normalizePublishedDate (Some (js ''not a date'')) = []
   \<and> normalizePublishedDate (Some (js ''Smarch 3, 2022'')) = []"
  by (simp add: normalizePublishedDate_def re_iso_date_def re_long_month_def monthMap_get_def
      monthMap_def padStart0_def lower_unit_def eval_defs)

end
